theory Spec2Isabelle
  imports Complex_Main
begin

section \<open>Data model\<close>

text \<open>
  The program is a Flask application (src/app.py) with three routes. Its state is the
  filesystem, the module-level dictionary \<open>request_timestamps\<close>, and nothing else.
  Paths and file contents are strings. A path holds a regular file or a directory.
  Timestamps are the values of \<open>time.time()\<close>; they are modelled as exact real numbers
  (floating-point rounding is not modelled). Requests are handled one at a time.
\<close>

type_synonym path = string
type_synonym bytes = string

datatype node = File bytes | Dir

text \<open>Every call into the operating system is recorded, in order, in \<open>syscalls\<close>.\<close>

datatype fs_op =
    Makedirs path
  | Exists path
  | Isfile path
  | Remove path
  | Save path
  | Run "string list"
  | Send path

record state =
  files :: "path \<rightharpoonup> node"
  request_timestamps :: "string \<rightharpoonup> real list"
  syscalls :: "fs_op list"

text \<open>The exceptions that the modelled calls can raise.\<close>

datatype error =
    OSError
  | FileExistsError
  | FileNotFoundError
  | CalledProcessError
  | NotFound
  | RequestEntityTooLarge

record file_storage =
  filename :: string
  content :: bytes

text \<open>
  What the handlers read of a request: \<open>request.remote_addr\<close>, the entry \<open>videoFile\<close>
  of \<open>request.files\<close> (absent or a file with a filename), \<open>request.content_length\<close>
  and the two form fields. They are plain data, with one exception: the first access to
  \<open>request.files\<close> makes the framework parse the body, and as \<open>MAX_CONTENT_LENGTH\<close> is
  configured (line 26 of the source) that access raises \<open>RequestEntityTooLarge\<close> when the
  declared content length is above it (\<open>request_files\<close> below). Strings are sequences of
  bytes, a character outside ASCII being its UTF-8 bytes.
\<close>

record request =
  remote_addr :: string
  videoFile :: "file_storage option"
  content_length :: "nat option"
  form_compression :: "string option"
  form_resolution :: "string option"

text \<open>
  What the world outside the program decides during one request: the clock, the fresh
  identifier, whether saving the upload succeeds (and what a failed save leaves behind),
  what the external encoder does with a command line, whether the operating system
  refuses to remove a path, and whether sending a file fails.
\<close>

datatype save_outcome = Save_ok | Save_raises "bytes option"

datatype encoder_outcome = Exited int "bytes option" | Not_started

record env =
  now :: real
  uuid4 :: string
  save_outcome :: save_outcome
  encoder :: "string list \<Rightarrow> (path \<rightharpoonup> node) \<Rightarrow> encoder_outcome"
  remove_fails :: "path \<Rightarrow> bool"
  send_error :: "error option"

datatype body =
    Json_error string
  | Json_filename string
  | Text string
  | Attachment string bytes
  | Page bytes

record response =
  body :: body
  status :: nat

section \<open>Configuration\<close>

definition UPLOAD_FOLDER :: path where
  "UPLOAD_FOLDER = ''uploads''"

definition CONVERTED_FOLDER :: path where
  "CONVERTED_FOLDER = ''converted''"

definition ALLOWED_EXTENSIONS :: "string set" where
  "ALLOWED_EXTENSIONS =
     {''mp4'', ''avi'', ''mov'', ''wmv'', ''flv'', ''mkv'', ''webm'', ''mpeg'', ''mpg'', ''m4v''}"

definition MAX_FILE_SIZE_MB :: nat where
  "MAX_FILE_SIZE_MB = 100"

definition MAX_CONTENT_LENGTH :: nat where
  "MAX_CONTENT_LENGTH = MAX_FILE_SIZE_MB * 1024 * 1024"

definition RATE_LIMIT_REQUESTS :: int where
  "RATE_LIMIT_REQUESTS = 5"

definition RATE_LIMIT_WINDOW_SECONDS :: real where
  "RATE_LIMIT_WINDOW_SECONDS = 60"

section \<open>Strings and paths\<close>

text \<open>
  \<open>str.lower\<close>, on strings held as their UTF-8 bytes. The letters A to Z become a to z.
  Python lowers by Unicode character: the one character outside ASCII whose lower case
  lies in ASCII is the Kelvin sign U+212A (bytes E2 84 AA), which becomes \<open>k\<close>. The other
  characters outside ASCII are left as they are here; Python maps each of them to a string
  that holds a character outside ASCII, so a lowered string equals a given ASCII string
  here exactly when it does in Python.
\<close>

definition lower_char :: "char \<Rightarrow> char" where
  "lower_char c =
     (case map_of (zip ''ABCDEFGHIJKLMNOPQRSTUVWXYZ'' ''abcdefghijklmnopqrstuvwxyz'') c of
        None \<Rightarrow> c
      | Some l \<Rightarrow> l)"

fun str_lower :: "string \<Rightarrow> string" where
  "str_lower (a # b # c # cs) =
     (if a = CHR 0xE2 \<and> b = CHR 0x84 \<and> c = CHR 0xAA then CHR ''k'' # str_lower cs
      else lower_char a # str_lower (b # c # cs))"
| "str_lower (a # cs) = lower_char a # str_lower cs"
| "str_lower [] = []"

text \<open>\<open>s.rsplit('.', 1)[1]\<close> for a string that contains a dot: the text after the last dot.\<close>

definition rsplit_dot_1 :: "string \<Rightarrow> string" where
  "rsplit_dot_1 s = rev (takeWhile (\<lambda>c. c \<noteq> CHR ''.'') (rev s))"

text \<open>\<open>os.path.join\<close> of two components on POSIX.\<close>

definition os_path_join :: "path \<Rightarrow> path \<Rightarrow> path" where
  "os_path_join a b =
     (if b \<noteq> [] \<and> hd b = CHR ''/'' then b
      else if a = [] \<or> last a = CHR ''/'' then a @ b
      else a @ ''/'' @ b)"

section \<open>Helper functions of the program\<close>

definition allowed_file :: "string \<Rightarrow> bool" where
  "allowed_file fname \<longleftrightarrow>
     CHR ''.'' \<in> set fname \<and> str_lower (rsplit_dot_1 fname) \<in> ALLOWED_EXTENSIONS"

definition record_call :: "fs_op \<Rightarrow> state \<Rightarrow> state" where
  "record_call c s = s\<lparr>syscalls := syscalls s @ [c]\<rparr>"

text \<open>\<open>os.makedirs(p, exist_ok=True)\<close> for a single-component path.\<close>

definition os_makedirs :: "path \<Rightarrow> state \<Rightarrow> error option \<times> state" where
  "os_makedirs p s =
     (let s' = record_call (Makedirs p) s in
      case files s p of
        None \<Rightarrow> (None, s'\<lparr>files := (files s)(p \<mapsto> Dir)\<rparr>)
      | Some Dir \<Rightarrow> (None, s')
      | Some (File b) \<Rightarrow> (Some FileExistsError, s'))"

definition create_temp_dirs :: "state \<Rightarrow> error option \<times> state" where
  "create_temp_dirs s =
     (case os_makedirs UPLOAD_FOLDER s of
        (Some e, s1) \<Rightarrow> (Some e, s1)
      | (None, s1) \<Rightarrow> os_makedirs CONVERTED_FOLDER s1)"

definition os_path_exists :: "path \<Rightarrow> state \<Rightarrow> bool \<times> state" where
  "os_path_exists p s = (files s p \<noteq> None, record_call (Exists p) s)"

definition os_path_isfile :: "path \<Rightarrow> state \<Rightarrow> bool \<times> state" where
  "os_path_isfile p s =
     ((case files s p of Some (File b) \<Rightarrow> True | _ \<Rightarrow> False), record_call (Isfile p) s)"

text \<open>\<open>os.remove\<close>: fails on a directory, on a missing path, and when the system refuses.\<close>

definition os_remove :: "path \<Rightarrow> env \<Rightarrow> state \<Rightarrow> error option \<times> state" where
  "os_remove p e s =
     (let s' = record_call (Remove p) s in
      if remove_fails e p then (Some OSError, s')
      else case files s p of
             Some (File b) \<Rightarrow> (None, s'\<lparr>files := (files s)(p := None)\<rparr>)
           | _ \<Rightarrow> (Some OSError, s'))"

text \<open>\<open>cleanup_file\<close>: an \<open>OSError\<close> of \<open>os.remove\<close> is logged and swallowed.\<close>

definition cleanup_file :: "path option \<Rightarrow> env \<Rightarrow> state \<Rightarrow> state" where
  "cleanup_file filepath e s =
     (case filepath of
        None \<Rightarrow> s
      | Some p \<Rightarrow>
          if p = [] then s
          else (case os_path_exists p s of
                  (False, s1) \<Rightarrow> s1
                | (True, s1) \<Rightarrow> snd (os_remove p e s1)))"

section \<open>Rate limiting decorator\<close>

definition timestamps_of :: "state \<Rightarrow> string \<Rightarrow> real list" where
  "timestamps_of s ip = (case request_timestamps s ip of None \<Rightarrow> [] | Some ts \<Rightarrow> ts)"

definition set_timestamps :: "string \<Rightarrow> real list \<Rightarrow> state \<Rightarrow> state" where
  "set_timestamps ip ts s = s\<lparr>request_timestamps := (request_timestamps s)(ip \<mapsto> ts)\<rparr>"

text \<open>
  The 429 response. The source's message also names the window length
  (\<open>Please wait {window} seconds.\<close>); number formatting is not modelled.
\<close>

definition too_many_requests :: response where
  "too_many_requests = \<lparr>body = Json_error ''Rate limit exceeded.'', status = 429\<rparr>"

definition rate_limit ::
  "int \<Rightarrow> real \<Rightarrow> (request \<Rightarrow> env \<Rightarrow> state \<Rightarrow> response \<times> state) \<Rightarrow>
   request \<Rightarrow> env \<Rightarrow> state \<Rightarrow> response \<times> state" where
  "rate_limit limit window f req e s =
     (let ip_address = remote_addr req;
          now = now e;
          kept = filter (\<lambda>ts. now - ts < window) (timestamps_of s ip_address);
          s1 = set_timestamps ip_address kept s
      in if int (length kept) \<ge> limit then (too_many_requests, s1)
         else f req e (set_timestamps ip_address (timestamps_of s1 ip_address @ [now]) s1))"

section \<open>The upload handler\<close>

text \<open>
  \<open>secure_filename\<close> is a function of the Werkzeug library, which is not part of the
  source; the handlers take it as the parameter \<open>sf\<close>.
\<close>

text \<open>
  \<open>file.save(path)\<close>: writes the uploaded bytes, or raises and leaves what it got to.
  Opening a directory for writing raises.
\<close>

definition file_save :: "file_storage \<Rightarrow> path \<Rightarrow> env \<Rightarrow> state \<Rightarrow> error option \<times> state" where
  "file_save file p e s =
     (let s' = record_call (Save p) s in
      if files s p = Some Dir then (Some OSError, s')
      else case save_outcome e of
             Save_ok \<Rightarrow> (None, s'\<lparr>files := (files s)(p \<mapsto> File (content file))\<rparr>)
           | Save_raises None \<Rightarrow> (Some OSError, s')
           | Save_raises (Some part) \<Rightarrow>
               (Some OSError, s'\<lparr>files := (files s)(p \<mapsto> File part)\<rparr>))"

text \<open>
  \<open>subprocess.run(cmd, check=True, ...)\<close>: the encoder is a black box that writes only to
  the path named last on its command line (and cannot replace a directory). With
  \<open>check=True\<close> a non-zero exit status raises \<open>CalledProcessError\<close>; a program that
  cannot be started raises \<open>FileNotFoundError\<close>. The value returned is the exit status.
\<close>

definition subprocess_run :: "string list \<Rightarrow> env \<Rightarrow> state \<Rightarrow> (error + int) \<times> state" where
  "subprocess_run cmd e s =
     (let s' = record_call (Run cmd) s in
      case encoder e cmd (files s) of
        Not_started \<Rightarrow> (Inl FileNotFoundError, s')
      | Exited rc out \<Rightarrow>
          (let s'' = (case out of
                        None \<Rightarrow> s'
                      | Some b \<Rightarrow>
                          if files s (last cmd) = Some Dir then s'
                          else s'\<lparr>files := (files s)(last cmd \<mapsto> File b)\<rparr>)
           in if rc \<noteq> 0 then (Inl CalledProcessError, s'') else (Inr rc, s'')))"

text \<open>
  The command line of lines 148 to 180 of the source: the flags chosen by the compression
  value, the flags chosen by the resolution value, and the fixed output options.
\<close>

definition crf_flags :: "string \<Rightarrow> string list" where
  "crf_flags compression =
     (if compression = ''low'' then [''-crf'', ''18'']
      else if compression = ''high'' then [''-crf'', ''28'']
      else [''-crf'', ''23''])"

definition scale_flags :: "string \<Rightarrow> string list" where
  "scale_flags resolution =
     (if resolution = ''1080p'' then [''-vf'', ''scale=-2:1080'']
      else if resolution = ''720p'' then [''-vf'', ''scale=-2:720'']
      else if resolution = ''480p'' then [''-vf'', ''scale=-2:480'']
      else [])"

definition ffmpeg_command :: "path \<Rightarrow> string \<Rightarrow> string \<Rightarrow> path \<Rightarrow> string list" where
  "ffmpeg_command upload_path compression resolution converted_path =
     [''ffmpeg'', ''-i'', upload_path] @ crf_flags compression @ scale_flags resolution @
     [''-codec:v'', ''libx264'', ''-preset'', ''medium'', ''-codec:a'', ''aac'',
      ''-b:a'', ''128k'', ''-movflags'', ''+faststart'', ''-y'', ''-hide_banner'',
      ''-loglevel'', ''error'', converted_path]"

definition json_error :: "string \<Rightarrow> nat \<Rightarrow> response" where
  "json_error msg code = \<lparr>body = Json_error msg, status = code\<rparr>"

text \<open>
  The local variables of \<open>upload_file\<close> that its \<open>finally\<close> block reads:
  \<open>process\<close> is \<open>None\<close> when the name is not in \<open>locals()\<close>, else the return code.
\<close>

record upload_locals =
  upload_path :: "path option"
  converted_path :: "path option"
  process :: "int option"

definition no_locals :: upload_locals where
  "no_locals = \<lparr>upload_path = None, converted_path = None, process = None\<rparr>"

text \<open>
  \<open>request.files\<close>, as line 106 of the source reads it first: the framework parses the
  body and raises when the declared content length is above \<open>MAX_CONTENT_LENGTH\<close>.
\<close>

definition declared_too_large :: "request \<Rightarrow> bool" where
  "declared_too_large req =
     (case content_length req of None \<Rightarrow> False | Some n \<Rightarrow> n > MAX_CONTENT_LENGTH)"

definition request_files :: "request \<Rightarrow> error + file_storage option" where
  "request_files req =
     (if declared_too_large req then Inl RequestEntityTooLarge else Inr (videoFile req))"

text \<open>
  The \<open>try\<close> block of \<open>upload_file\<close> with its two \<open>except\<close> clauses: the response, the
  local variables at exit, and the state. An exception of \<open>request.files\<close> is caught by
  the clause \<open>except Exception\<close> like any other. The message of the file-type error lists
  the allowed extensions in the (unspecified) iteration order of a Python set; the list
  is left out of the message here.
\<close>

definition upload_try ::
  "(string \<Rightarrow> string) \<Rightarrow> request \<Rightarrow> env \<Rightarrow> state \<Rightarrow> response \<times> upload_locals \<times> state" where
  "upload_try sf req e s =
     (case request_files req of
        Inl err \<Rightarrow> (json_error ''An internal server error occurred.'' 500, no_locals, s)
      | Inr None \<Rightarrow> (json_error ''No file part provided.'' 400, no_locals, s)
      | Inr (Some file) \<Rightarrow>
          if filename file = [] then (json_error ''No file selected.'' 400, no_locals, s)
          else if \<not> allowed_file (filename file)
            then (json_error ''Invalid file type.'' 400, no_locals, s)
          else if (case content_length req of
                     None \<Rightarrow> False
                   | Some n \<Rightarrow> n \<noteq> 0 \<and> n > MAX_CONTENT_LENGTH)
            then (json_error ''File is too large. Maximum size is 100 MB.'' 413, no_locals, s)
          else
            (let original_filename = sf (filename file);
                 unique_id = uuid4 e;
                 original_extension =
                   (if CHR ''.'' \<in> set original_filename
                    then str_lower (rsplit_dot_1 original_filename) else []);
                 temp_filename = unique_id @ ''.'' @ original_extension;
                 up = os_path_join UPLOAD_FOLDER temp_filename;
                 converted_filename = unique_id @ ''.mp4'';
                 cp = os_path_join CONVERTED_FOLDER converted_filename;
                 reserved = \<lparr>upload_path = Some up, converted_path = Some cp, process = None\<rparr>
             in case file_save file up e s of
                  (Some err, s1) \<Rightarrow>
                    (json_error ''An internal server error occurred.'' 500, reserved, s1)
                | (None, s1) \<Rightarrow>
                    (let compression =
                           str_lower (case form_compression req of
                                        None \<Rightarrow> ''medium'' | Some v \<Rightarrow> v);
                         resolution =
                           str_lower (case form_resolution req of
                                        None \<Rightarrow> ''original'' | Some v \<Rightarrow> v);
                         cmd = ffmpeg_command up compression resolution cp
                     in case subprocess_run cmd e s1 of
                          (Inl CalledProcessError, s2) \<Rightarrow>
                            (json_error
                               ''Video conversion failed. The format might be unsupported or the file corrupted.''
                               500, reserved, s2)
                        | (Inl err, s2) \<Rightarrow>
                            (json_error ''An internal server error occurred.'' 500, reserved, s2)
                        | (Inr rc, s2) \<Rightarrow>
                            (\<lparr>body = Json_filename converted_filename, status = 200\<rparr>,
                             reserved\<lparr>process := Some rc\<rparr>, s2))))"

text \<open>The \<open>finally\<close> block of \<open>upload_file\<close>.\<close>

definition upload_finally :: "upload_locals \<Rightarrow> env \<Rightarrow> state \<Rightarrow> state" where
  "upload_finally l e s =
     (let s1 = cleanup_file (upload_path l) e s in
      case process l of
        Some rc \<Rightarrow> if rc \<noteq> 0 then cleanup_file (converted_path l) e s1 else s1
      | None \<Rightarrow> cleanup_file (converted_path l) e s1)"

text \<open>
  \<open>upload_file\<close>, without its decorator. \<open>create_temp_dirs\<close> runs before the \<open>try\<close>
  block, so an exception there leaves the function unhandled and the framework answers 500.
\<close>

definition internal_server_error :: response where
  "internal_server_error = \<lparr>body = Text ''Internal Server Error'', status = 500\<rparr>"

definition upload_file ::
  "(string \<Rightarrow> string) \<Rightarrow> request \<Rightarrow> env \<Rightarrow> state \<Rightarrow> response \<times> state" where
  "upload_file sf req e s =
     (case create_temp_dirs s of
        (Some err, s0) \<Rightarrow> (internal_server_error, s0)
      | (None, s0) \<Rightarrow>
          (case upload_try sf req e s0 of
             (resp, l, s1) \<Rightarrow> (resp, upload_finally l e s1)))"

section \<open>The download and index handlers\<close>

text \<open>
  \<open>send_from_directory(directory, name)\<close>: answers with the bytes of the regular file
  at the joined path, raises \<open>NotFound\<close> when there is none, and raises what the
  environment says when reading fails.
\<close>

definition send_from_directory :: "path \<Rightarrow> string \<Rightarrow> env \<Rightarrow> state \<Rightarrow> (error + bytes) \<times> state" where
  "send_from_directory directory name e s =
     (let p = os_path_join directory name;
          s' = record_call (Send p) s
      in case send_error e of
           Some err \<Rightarrow> (Inl err, s')
         | None \<Rightarrow> (case files s p of
                      Some (File b) \<Rightarrow> (Inr b, s')
                    | _ \<Rightarrow> (Inl NotFound, s')))"

definition text_response :: "string \<Rightarrow> nat \<Rightarrow> response" where
  "text_response msg code = \<lparr>body = Text msg, status = code\<rparr>"

definition index :: "env \<Rightarrow> state \<Rightarrow> response \<times> state" where
  "index e s =
     (case send_from_directory ''.'' ''index.html'' e s of
        (Inr b, s1) \<Rightarrow> (\<lparr>body = Page b, status = 200\<rparr>, s1)
      | (Inl FileNotFoundError, s1) \<Rightarrow> (text_response ''Error: index.html not found.'' 404, s1)
      | (Inl err, s1) \<Rightarrow> (text_response ''An internal error occurred.'' 500, s1))"

text \<open>
  \<open>download_file\<close>. The function registered with \<open>after_this_request\<close> runs once the
  view has returned its response, whether that came from \<open>send_from_directory\<close> or from
  the \<open>except\<close> clause.
\<close>

definition download_file ::
  "(string \<Rightarrow> string) \<Rightarrow> string \<Rightarrow> env \<Rightarrow> state \<Rightarrow> response \<times> state" where
  "download_file sf fname e s =
     (let safe_filename = sf fname in
      if safe_filename \<noteq> fname then (text_response ''Invalid filename'' 400, s)
      else
        (let file_path = os_path_join CONVERTED_FOLDER safe_filename in
         case os_path_exists file_path s of
           (False, s1) \<Rightarrow> (text_response ''File not found.'' 404, s1)
         | (True, s1) \<Rightarrow>
             (case os_path_isfile file_path s1 of
                (False, s2) \<Rightarrow> (text_response ''File not found.'' 404, s2)
              | (True, s2) \<Rightarrow>
                  (case send_from_directory CONVERTED_FOLDER safe_filename e s2 of
                     (Inr b, s3) \<Rightarrow>
                       (\<lparr>body = Attachment safe_filename b, status = 200\<rparr>,
                        cleanup_file (Some file_path) e s3)
                   | (Inl err, s3) \<Rightarrow>
                       (text_response ''An error occurred while downloading the file.'' 500,
                        cleanup_file (Some file_path) e s3)))))"

section \<open>Routes\<close>

definition upload_route ::
  "(string \<Rightarrow> string) \<Rightarrow> request \<Rightarrow> env \<Rightarrow> state \<Rightarrow> response \<times> state" where
  "upload_route sf = rate_limit RATE_LIMIT_REQUESTS RATE_LIMIT_WINDOW_SECONDS (upload_file sf)"

datatype event =
    Upload request env
  | Download string env
  | Index env

fun handle :: "(string \<Rightarrow> string) \<Rightarrow> event \<Rightarrow> state \<Rightarrow> response \<times> state" where
  "handle sf (Upload req e) s = upload_route sf req e s"
| "handle sf (Download fname e) s = download_file sf fname e s"
| "handle sf (Index e) s = index e s"

text \<open>Serving a sequence of requests, one after the other.\<close>

fun serve :: "(string \<Rightarrow> string) \<Rightarrow> event list \<Rightarrow> state \<Rightarrow> response list \<times> state" where
  "serve sf [] s = ([], s)"
| "serve sf (ev # evs) s =
     (case handle sf ev s of
        (r, s') \<Rightarrow> (case serve sf evs s' of (rs, s'') \<Rightarrow> (r # rs, s'')))"

section \<open>Notions used to state the properties\<close>

text \<open>The state of a freshly started process: no timestamps recorded, nothing logged.\<close>

definition fresh_state :: "(path \<rightharpoonup> node) \<Rightarrow> state" where
  "fresh_state fs = \<lparr>files = fs, request_timestamps = Map.empty, syscalls = []\<rparr>"

text \<open>The system calls made between two states of one run.\<close>

definition new_calls :: "state \<Rightarrow> state \<Rightarrow> fs_op list" where
  "new_calls s s' = drop (length (syscalls s)) (syscalls s')"

definition holds_file :: "state \<Rightarrow> path \<Rightarrow> bool" where
  "holds_file s p = (case files s p of Some (File b) \<Rightarrow> True | _ \<Rightarrow> False)"

definition with_timestamps :: "(string \<rightharpoonup> real list) \<Rightarrow> state \<Rightarrow> state" where
  "with_timestamps ts s = s\<lparr>request_timestamps := ts\<rparr>"

text \<open>The path an operation acts on (for the encoder: the output path).\<close>

fun op_path :: "fs_op \<Rightarrow> path" where
  "op_path (Makedirs p) = p"
| "op_path (Exists p) = p"
| "op_path (Isfile p) = p"
| "op_path (Remove p) = p"
| "op_path (Save p) = p"
| "op_path (Run cmd) = last cmd"
| "op_path (Send p) = p"

text \<open>
  The two paths that \<open>upload_file\<close> reserves once validation has passed (lines 128 to
  137 of the source), and the command line it then builds.
\<close>

definition reserved_upload_path :: "(string \<Rightarrow> string) \<Rightarrow> request \<Rightarrow> env \<Rightarrow> path" where
  "reserved_upload_path sf req e =
     (let original_filename = sf (case videoFile req of None \<Rightarrow> [] | Some file \<Rightarrow> filename file)
      in os_path_join UPLOAD_FOLDER
           (uuid4 e @ ''.'' @
            (if CHR ''.'' \<in> set original_filename
             then str_lower (rsplit_dot_1 original_filename) else [])))"

definition reserved_converted_path :: "env \<Rightarrow> path" where
  "reserved_converted_path e = os_path_join CONVERTED_FOLDER (uuid4 e @ ''.mp4'')"

definition requested_command :: "(string \<Rightarrow> string) \<Rightarrow> request \<Rightarrow> env \<Rightarrow> string list" where
  "requested_command sf req e =
     ffmpeg_command (reserved_upload_path sf req e)
       (str_lower (case form_compression req of None \<Rightarrow> ''medium'' | Some v \<Rightarrow> v))
       (str_lower (case form_resolution req of None \<Rightarrow> ''original'' | Some v \<Rightarrow> v))
       (reserved_converted_path e)"

text \<open>The clock readings of the upload requests of a sequence, in order.\<close>

fun upload_times :: "event list \<Rightarrow> real list" where
  "upload_times [] = []"
| "upload_times (Upload req e # evs) = now e # upload_times evs"
| "upload_times (ev # evs) = upload_times evs"

text \<open>
  The upload requests of a sequence that the rate limiter lets through, as pairs of
  client address and clock reading, in order.
\<close>

fun admitted :: "(string \<Rightarrow> string) \<Rightarrow> event list \<Rightarrow> state \<Rightarrow> (string \<times> real) list" where
  "admitted sf [] s = []"
| "admitted sf (ev # evs) s =
     (case handle sf ev s of
        (r, s') \<Rightarrow>
          (case ev of
             Upload req e \<Rightarrow> if status r = 429 then [] else [(remote_addr req, now e)]
           | _ \<Rightarrow> []) @ admitted sf evs s')"

text \<open>An upload that passes the four validation checks.\<close>

definition passes_validation :: "request \<Rightarrow> bool" where
  "passes_validation req =
     (case videoFile req of
        None \<Rightarrow> False
      | Some file \<Rightarrow>
          filename file \<noteq> [] \<and> allowed_file (filename file) \<and>
          (case content_length req of None \<Rightarrow> True | Some n \<Rightarrow> n \<le> MAX_CONTENT_LENGTH))"

text \<open>
  What \<open>upload_file\<close> does once \<open>create_temp_dirs\<close> has succeeded and validation has
  passed, with the \<open>finally\<close> block applied to each outcome (lemma \<open>upload_valid\<close>
  below shows that this is the source's function on those inputs).
\<close>

definition after_validation ::
  "(string \<Rightarrow> string) \<Rightarrow> request \<Rightarrow> env \<Rightarrow> state \<Rightarrow> response \<times> state" where
  "after_validation sf req e s0 =
     (let up = reserved_upload_path sf req e; cp = reserved_converted_path e;
          s1 = snd (file_save (the (videoFile req)) up e s0)
      in if fst (file_save (the (videoFile req)) up e s0) \<noteq> None
         then (json_error ''An internal server error occurred.'' 500,
               cleanup_file (Some cp) e (cleanup_file (Some up) e s1))
         else (let s2 = snd (subprocess_run (requested_command sf req e) e s1) in
               case fst (subprocess_run (requested_command sf req e) e s1) of
                 Inr rc \<Rightarrow> (\<lparr>body = Json_filename (uuid4 e @ ''.mp4''), status = 200\<rparr>,
                            cleanup_file (Some up) e s2)
               | Inl CalledProcessError \<Rightarrow>
                   (json_error ''Video conversion failed. The format might be unsupported or the file corrupted.'' 500,
                    cleanup_file (Some cp) e (cleanup_file (Some up) e s2))
               | Inl err \<Rightarrow>
                   (json_error ''An internal server error occurred.'' 500,
                    cleanup_file (Some cp) e (cleanup_file (Some up) e s2))))"

text \<open>The timestamps of the client that the decorator keeps (line 66 of the source).\<close>

definition kept_timestamps :: "request \<Rightarrow> env \<Rightarrow> state \<Rightarrow> real list" where
  "kept_timestamps req e s =
     filter (\<lambda>ts. now e - ts < RATE_LIMIT_WINDOW_SECONDS) (timestamps_of s (remote_addr req))"


text \<open>No client ever has more than the limit of timestamps on record.\<close>

definition within_limit :: "state \<Rightarrow> bool" where
  "within_limit s \<longleftrightarrow> (\<forall>ip. int (length (timestamps_of s ip)) \<le> RATE_LIMIT_REQUESTS)"


text \<open>The clock readings of one client in a list of admitted requests.\<close>

definition client_times :: "string \<Rightarrow> (string \<times> real) list \<Rightarrow> real list" where
  "client_times ip h = map snd (filter (\<lambda>(i, t). i = ip) h)"


text \<open>
  Two invariants of a run. The record of a client is what its admitted requests leave
  after pruning at the time of some earlier upload request; and no window-long
  half-open interval holds more admitted requests of a client than the limit.
\<close>

definition store_tracks :: "(string \<Rightarrow> string) \<Rightarrow> event list \<Rightarrow> state \<Rightarrow> bool" where
  "store_tracks sf evs s0 \<longleftrightarrow>
     (\<forall>ip. (client_times ip (admitted sf evs s0) = [] \<and>
            timestamps_of (snd (serve sf evs s0)) ip = []) \<or>
           (\<exists>T \<in> set (upload_times evs).
              timestamps_of (snd (serve sf evs s0)) ip =
                filter (\<lambda>t. T - t < RATE_LIMIT_WINDOW_SECONDS)
                  (client_times ip (admitted sf evs s0))))"

definition window_bound :: "(string \<Rightarrow> string) \<Rightarrow> event list \<Rightarrow> state \<Rightarrow> bool" where
  "window_bound sf evs s0 \<longleftrightarrow>
     (\<forall>ip a. int (length (filter (\<lambda>t. a \<le> t \<and> t < a + RATE_LIMIT_WINDOW_SECONDS)
                       (client_times ip (admitted sf evs s0)))) \<le> RATE_LIMIT_REQUESTS)"


section \<open>A model of the library's filename sanitiser\<close>

text \<open>
  Modelled from the spec: \<open>secure_filename\<close> belongs to the Werkzeug library and is not
  in the source; the spec says that sanitising strips path separators and unsafe
  characters. The definition follows the library's behaviour on POSIX: characters outside
  ASCII are dropped, the separator becomes a space, runs of whitespace become one
  underscore, every character other than a letter, a digit, underscore, dot or hyphen is
  removed, and leading and trailing dots and underscores are stripped. It instantiates the
  parameter \<open>sf\<close> of the handlers at concrete inputs.
\<close>

definition is_space :: "char \<Rightarrow> bool" where
  "is_space c \<longleftrightarrow>
     c \<in> set [CHR '' '', CHR 0x09, CHR 0x0A, CHR 0x0B, CHR 0x0C, CHR 0x0D,
              CHR 0x1C, CHR 0x1D, CHR 0x1E, CHR 0x1F]"

definition safe_char :: "char \<Rightarrow> bool" where
  "safe_char c \<longleftrightarrow>
     c \<in> set ''ABCDEFGHIJKLMNOPQRSTUVWXYZabcdefghijklmnopqrstuvwxyz0123456789_.-''"

fun split_words :: "string \<Rightarrow> string \<Rightarrow> string list" where
  "split_words [] w = (if w = [] then [] else [w])"
| "split_words (c # cs) w =
     (if is_space c then (if w = [] then split_words cs [] else w # split_words cs [])
      else split_words cs (w @ [c]))"

fun join_underscore :: "string list \<Rightarrow> string" where
  "join_underscore [] = []"
| "join_underscore [w] = w"
| "join_underscore (w # ws) = w @ ''_'' @ join_underscore ws"

definition strip_chars :: "string \<Rightarrow> string \<Rightarrow> string" where
  "strip_chars cs s =
     rev (dropWhile (\<lambda>c. c \<in> set cs) (rev (dropWhile (\<lambda>c. c \<in> set cs) s)))"

definition secure_filename :: "string \<Rightarrow> string" where
  "secure_filename fname =
     strip_chars ''._''
       (filter safe_char
          (join_underscore
             (split_words
                (map (\<lambda>c. if c = CHR ''/'' then CHR '' '' else c)
                   (filter (\<lambda>c. (of_char c :: nat) < 128) fname)) [])))"

section \<open>Sample inputs\<close>

definition sample_env :: env where
  "sample_env =
     \<lparr>now = 0, uuid4 = ''0f8c'', save_outcome = Save_ok,
      encoder = (\<lambda>cmd fs. Exited 0 (Some ''mp4 bytes'')),
      remove_fails = (\<lambda>p. False), send_error = None\<rparr>"

definition sample_request :: request where
  "sample_request =
     \<lparr>remote_addr = ''10.0.0.1'',
      videoFile = Some \<lparr>filename = ''movie.MP4'', content = ''avi bytes''\<rparr>,
      content_length = Some 9, form_compression = Some ''low'',
      form_resolution = Some ''1080p''\<rparr>"

text \<open>The same upload with a declared content length of 100 MB and one byte.\<close>

definition oversize_request :: request where
  "oversize_request = sample_request\<lparr>content_length := Some 104857601\<rparr>"

text \<open>A request without a file part, from the same client.\<close>

definition bare_request :: request where
  "bare_request = sample_request\<lparr>videoFile := None\<rparr>"

definition at_time :: "real \<Rightarrow> env" where
  "at_time t = sample_env\<lparr>now := t\<rparr>"

text \<open>An environment in which the operating system refuses every removal.\<close>

definition stubborn_env :: env where
  "stubborn_env = sample_env\<lparr>remove_fails := (\<lambda>p. True)\<rparr>"

text \<open>An environment in which the encoder writes part of its output and exits with status 1.\<close>

definition broken_encoder_env :: env where
  "broken_encoder_env = sample_env\<lparr>encoder := (\<lambda>cmd fs. Exited 1 (Some ''partial''))\<rparr>"

definition stubborn_broken_env :: env where
  "stubborn_broken_env = broken_encoder_env\<lparr>remove_fails := (\<lambda>p. True)\<rparr>"

text \<open>A filesystem that holds one converted file.\<close>

definition stocked_fs :: "path \<rightharpoonup> node" where
  "stocked_fs = [''converted'' \<mapsto> Dir, ''converted/0f8c.mp4'' \<mapsto> File ''mp4 bytes'']"

text \<open>Five upload requests of one client at time 0, and five at time 59.\<close>

definition five_at_0 :: "event list" where
  "five_at_0 =
     [Upload bare_request (at_time 0), Upload bare_request (at_time 0),
      Upload bare_request (at_time 0), Upload bare_request (at_time 0),
      Upload bare_request (at_time 0)]"

definition five_at_59 :: "event list" where
  "five_at_59 =
     [Upload bare_request (at_time 59), Upload bare_request (at_time 59),
      Upload bare_request (at_time 59), Upload bare_request (at_time 59),
      Upload bare_request (at_time 59)]"

text \<open>
  A store in which one client has six timestamps on record, the oldest of them 105 seconds
  before the clock reading 105. The dictionary is shared by all request threads and the
  decorator reads and writes it without a lock.
\<close>

definition crowded_state :: state where
  "crowded_state =
     (fresh_state Map.empty)\<lparr>request_timestamps := [''10.0.0.1'' \<mapsto> [0, 100, 101, 102, 103, 104]]\<rparr>"

section \<open>Effects of the system calls\<close>


lemma record_call_fields [simp]:
  "files (record_call c s) = files s"
  "syscalls (record_call c s) = syscalls s @ [c]"
  "request_timestamps (record_call c s) = request_timestamps s"
  by (simp_all add: record_call_def)

lemma os_makedirs_fields:
  "files (snd (os_makedirs p s)) = (if files s p = None then (files s)(p \<mapsto> Dir) else files s)"
  "syscalls (snd (os_makedirs p s)) = syscalls s @ [Makedirs p]"
  "request_timestamps (snd (os_makedirs p s)) = request_timestamps s"
  "fst (os_makedirs p s) = (if holds_file s p then Some FileExistsError else None)"
  by (simp_all add: os_makedirs_def holds_file_def Let_def split: option.split node.split)

lemma cleanup_file_fields:
  "files (cleanup_file (Some p) e s) =
     (if p \<noteq> [] \<and> holds_file s p \<and> \<not> remove_fails e p then (files s)(p := None) else files s)"
  "syscalls (cleanup_file (Some p) e s) =
     syscalls s @ (if p = [] then [] else if files s p = None then [Exists p] else [Exists p, Remove p])"
  "request_timestamps (cleanup_file fp e s) = request_timestamps s"
  by (simp_all add: cleanup_file_def os_path_exists_def os_remove_def holds_file_def Let_def
      split: option.split node.split bool.split)

lemma cleanup_file_None [simp]: "cleanup_file None e s = s"
  by (simp add: cleanup_file_def)

lemma file_save_fields:
  "files (snd (file_save f p e s)) =
     (if files s p = Some Dir then files s
      else case save_outcome e of
             Save_ok \<Rightarrow> (files s)(p \<mapsto> File (content f))
           | Save_raises None \<Rightarrow> files s
           | Save_raises (Some part) \<Rightarrow> (files s)(p \<mapsto> File part))"
  "syscalls (snd (file_save f p e s)) = syscalls s @ [Save p]"
  "request_timestamps (snd (file_save f p e s)) = request_timestamps s"
  by (simp_all add: file_save_def Let_def split: option.split save_outcome.split)

lemma subprocess_run_fields:
  "files (snd (subprocess_run cmd e s)) =
     (case encoder e cmd (files s) of
        Exited rc (Some b) \<Rightarrow>
          if files s (last cmd) = Some Dir then files s else (files s)(last cmd \<mapsto> File b)
      | _ \<Rightarrow> files s)"
  "syscalls (snd (subprocess_run cmd e s)) = syscalls s @ [Run cmd]"
  "request_timestamps (snd (subprocess_run cmd e s)) = request_timestamps s"
  by (simp_all add: subprocess_run_def Let_def split: option.split encoder_outcome.split)

lemma subprocess_run_Inr: "fst (subprocess_run cmd e s) = Inr rc \<Longrightarrow> rc = 0"
  by (simp add: subprocess_run_def Let_def split: option.splits encoder_outcome.splits if_splits)

lemma subprocess_run_result:
  "fst (subprocess_run cmd e s) =
     (case encoder e cmd (files s) of
        Not_started \<Rightarrow> Inl FileNotFoundError
      | Exited rc out \<Rightarrow> if rc \<noteq> 0 then Inl CalledProcessError else Inr rc)"
  by (simp add: subprocess_run_def Let_def split: option.split encoder_outcome.split)

section \<open>The upload handler, case by case\<close>

lemma max_content_length_pos: "0 < MAX_CONTENT_LENGTH"
  by (simp add: MAX_CONTENT_LENGTH_def MAX_FILE_SIZE_MB_def)

lemma declared_too_large_iff:
  "declared_too_large req \<longleftrightarrow> (\<exists>n. content_length req = Some n \<and> n > MAX_CONTENT_LENGTH)"
  by (simp add: declared_too_large_def split: option.split)

lemma upload_try_oversize:
  "declared_too_large req \<Longrightarrow>
   upload_try sf req e s = (json_error ''An internal server error occurred.'' 500, no_locals, s)"
  by (simp add: upload_try_def request_files_def)

lemma request_files_parsed:
  "\<not> declared_too_large req \<Longrightarrow> request_files req = Inr (videoFile req)"
  by (simp add: request_files_def)

lemma upload_try_no_file:
  "\<not> declared_too_large req \<Longrightarrow> videoFile req = None \<Longrightarrow>
   upload_try sf req e s = (json_error ''No file part provided.'' 400, no_locals, s)"
  by (simp add: upload_try_def request_files_parsed)

lemma upload_try_empty_name:
  "\<not> declared_too_large req \<Longrightarrow> videoFile req = Some fl \<Longrightarrow> filename fl = [] \<Longrightarrow>
   upload_try sf req e s = (json_error ''No file selected.'' 400, no_locals, s)"
  by (simp add: upload_try_def request_files_parsed)

lemma upload_try_bad_type:
  "\<not> declared_too_large req \<Longrightarrow> videoFile req = Some fl \<Longrightarrow> filename fl \<noteq> [] \<Longrightarrow>
   \<not> allowed_file (filename fl) \<Longrightarrow>
   upload_try sf req e s = (json_error ''Invalid file type.'' 400, no_locals, s)"
  by (simp add: upload_try_def request_files_parsed)

lemma passes_validation_not_large: "passes_validation req \<Longrightarrow> \<not> declared_too_large req"
  by (auto simp: passes_validation_def declared_too_large_def split: option.splits)

lemma upload_try_invalid:
  assumes "\<not> passes_validation req"
  shows "snd (upload_try sf req e s) = (no_locals, s) \<and>
         status (fst (upload_try sf req e s)) \<in> {400, 500}"
proof (cases "declared_too_large req")
  case True
  then show ?thesis by (simp add: upload_try_oversize json_error_def)
next
  case small: False
  show ?thesis
  proof (cases "videoFile req")
    case None
    then show ?thesis using small by (simp add: upload_try_no_file json_error_def)
  next
    case (Some fl)
    show ?thesis
    proof (cases "filename fl = []")
      case True
      then show ?thesis using Some small by (simp add: upload_try_empty_name json_error_def)
    next
      case nonempty: False
      have "\<not> allowed_file (filename fl)"
        using assms Some nonempty small
        by (cases "content_length req") (simp_all add: passes_validation_def declared_too_large_def)
      then show ?thesis using Some nonempty small
        by (simp add: upload_try_bad_type json_error_def)
    qed
  qed
qed

lemma upload_valid:
  assumes "passes_validation req"
  shows "(case upload_try sf req e s0 of (resp, l, s1) \<Rightarrow> (resp, upload_finally l e s1))
         = after_validation sf req e s0"
proof -
  from assms obtain fl where f: "videoFile req = Some fl"
    by (auto simp: passes_validation_def split: option.splits)
  from assms f have v: "filename fl \<noteq> []" "allowed_file (filename fl)"
    "\<not> (case content_length req of None \<Rightarrow> False | Some n \<Rightarrow> n \<noteq> 0 \<and> n > MAX_CONTENT_LENGTH)"
    "request_files req = Inr (Some fl)"
    using request_files_parsed[OF passes_validation_not_large[OF assms]]
    by (auto simp: passes_validation_def split: option.splits)
  define up where "up = reserved_upload_path sf req e"
  define cmd where "cmd = requested_command sf req e"
  obtain r1 s1 where fs: "file_save fl up e s0 = (r1, s1)" by (cases "file_save fl up e s0")
  obtain r2 s2 where sr: "subprocess_run cmd e s1 = (r2, s2)" by (cases "subprocess_run cmd e s1")
  show ?thesis
  proof (cases r1)
    case (Some err)
    then show ?thesis using f v fs
      by (simp add: upload_try_def after_validation_def Let_def upload_finally_def
          reserved_upload_path_def reserved_converted_path_def up_def)
  next
    case None
    show ?thesis
    proof (cases r2)
      case (Inl err)
      then show ?thesis using f v fs None sr
        by (cases err)
           (simp_all add: upload_try_def after_validation_def Let_def upload_finally_def
             reserved_upload_path_def reserved_converted_path_def requested_command_def up_def cmd_def)
    next
      case (Inr rc)
      then have "rc = 0" using subprocess_run_Inr[of cmd e s1 rc] sr by simp
      then show ?thesis using f v fs None sr Inr
        by (simp add: upload_try_def after_validation_def Let_def upload_finally_def
             reserved_upload_path_def reserved_converted_path_def requested_command_def up_def cmd_def)
    qed
  qed
qed

lemma new_calls_append [simp]: "syscalls s' = syscalls s @ xs \<Longrightarrow> new_calls s s' = xs"
  by (simp add: new_calls_def)

lemma create_temp_dirs_fields:
  "fst (create_temp_dirs s) = None \<Longrightarrow>
     syscalls (snd (create_temp_dirs s)) = syscalls s @ [Makedirs UPLOAD_FOLDER, Makedirs CONVERTED_FOLDER]"
  "fst (create_temp_dirs s) \<noteq> None \<Longrightarrow>
     set (new_calls s (snd (create_temp_dirs s))) \<subseteq> {Makedirs UPLOAD_FOLDER, Makedirs CONVERTED_FOLDER}"
  "request_timestamps (snd (create_temp_dirs s)) = request_timestamps s"
  "files (snd (create_temp_dirs s)) p =
     (if p \<in> {UPLOAD_FOLDER, CONVERTED_FOLDER} \<and> files s p = None \<and> \<not> holds_file s UPLOAD_FOLDER
      then Some Dir else files s p)"
  "\<exists>xs. syscalls (snd (create_temp_dirs s)) = syscalls s @ xs \<and>
        set xs \<subseteq> {Makedirs UPLOAD_FOLDER, Makedirs CONVERTED_FOLDER}"
  by (auto simp add: create_temp_dirs_def os_makedirs_def holds_file_def Let_def new_calls_def
      UPLOAD_FOLDER_def CONVERTED_FOLDER_def
      split: option.splits node.splits prod.splits if_splits)

lemma os_path_join_nonempty: "a \<noteq> [] \<Longrightarrow> os_path_join a b \<noteq> []"
  by (auto simp: os_path_join_def)

lemma reserved_paths_nonempty [simp]:
  "reserved_upload_path sf req e \<noteq> []" "reserved_converted_path e \<noteq> []"
  by (simp_all add: reserved_upload_path_def reserved_converted_path_def Let_def
      os_path_join_nonempty UPLOAD_FOLDER_def CONVERTED_FOLDER_def)

lemma hd_uuid_suffix:
  assumes "CHR ''/'' \<notin> set u"
  shows "hd (u @ CHR ''.'' # x) \<noteq> CHR ''/''"
  using assms by (cases u) auto

lemma reserved_paths_distinct:
  assumes "CHR ''/'' \<notin> set (uuid4 e)"
  shows "reserved_upload_path sf req e \<noteq> reserved_converted_path e"
  using hd_uuid_suffix[OF assms]
  by (simp add: reserved_upload_path_def reserved_converted_path_def Let_def os_path_join_def
      UPLOAD_FOLDER_def CONVERTED_FOLDER_def)

lemma holds_file_cleanup_same:
  "p \<noteq> [] \<Longrightarrow> \<not> remove_fails e p \<Longrightarrow> \<not> holds_file (cleanup_file (Some p) e s) p"
  by (simp add: holds_file_def cleanup_file_fields split: option.splits node.splits)

lemma holds_file_cleanup_absent:
  "\<not> holds_file s q \<Longrightarrow> \<not> holds_file (cleanup_file (Some p) e s) q"
  by (simp add: holds_file_def cleanup_file_fields split: option.splits node.splits)

lemma files_cleanup_other:
  "q \<noteq> p \<Longrightarrow> files (cleanup_file (Some p) e s) q = files s q"
  by (simp add: cleanup_file_fields)

lemma cleanup_file_calls:
  "\<exists>xs. syscalls (cleanup_file (Some p) e s) = syscalls s @ xs \<and>
        set xs \<subseteq> {Exists p, Remove p} \<and> (p \<noteq> [] \<longrightarrow> hd xs = Exists p \<and> xs \<noteq> [])"
  by (simp add: cleanup_file_fields)

lemma after_validation_cases:
  fixes sf req e s0
  defines "up \<equiv> reserved_upload_path sf req e"
      and "cp \<equiv> reserved_converted_path e"
      and "cmd \<equiv> requested_command sf req e"
  defines "s1 \<equiv> snd (file_save (the (videoFile req)) up e s0)"
  defines "s2 \<equiv> snd (subprocess_run cmd e s1)"
  obtains
    (save_failed) "fst (file_save (the (videoFile req)) up e s0) \<noteq> None"
      "status (fst (after_validation sf req e s0)) = 500"
      "snd (after_validation sf req e s0) = cleanup_file (Some cp) e (cleanup_file (Some up) e s1)"
  | (encoder_failed) err where "fst (file_save (the (videoFile req)) up e s0) = None"
      "fst (subprocess_run cmd e s1) = Inl err"
      "status (fst (after_validation sf req e s0)) = 500"
      "snd (after_validation sf req e s0) = cleanup_file (Some cp) e (cleanup_file (Some up) e s2)"
  | (converted) "fst (file_save (the (videoFile req)) up e s0) = None"
      "fst (subprocess_run cmd e s1) = Inr 0"
      "fst (after_validation sf req e s0) = \<lparr>body = Json_filename (uuid4 e @ ''.mp4''), status = 200\<rparr>"
      "snd (after_validation sf req e s0) = cleanup_file (Some up) e s2"
proof (cases "fst (file_save (the (videoFile req)) up e s0) = None")
  case False
  then show ?thesis
    using save_failed
    by (simp add: after_validation_def Let_def json_error_def up_def cp_def s1_def)
next
  case True
  show ?thesis
  proof (cases "fst (subprocess_run cmd e s1)")
    case (Inl err)
    then show ?thesis using True encoder_failed[of err]
      by (cases err)
         (simp_all add: after_validation_def Let_def json_error_def up_def cp_def s1_def s2_def cmd_def)
  next
    case (Inr rc)
    then have "rc = 0" by (rule subprocess_run_Inr)
    then show ?thesis using True Inr converted
      by (simp add: after_validation_def Let_def up_def cp_def s1_def s2_def cmd_def)
  qed
qed

lemma upload_file_dirs_failed:
  "fst (create_temp_dirs s) \<noteq> None \<Longrightarrow>
   upload_file sf req e s = (internal_server_error, snd (create_temp_dirs s))"
  by (cases "create_temp_dirs s") (auto simp: upload_file_def)

lemma upload_file_invalid:
  assumes "fst (create_temp_dirs s) = None" "\<not> passes_validation req"
  shows "upload_file sf req e s =
           (fst (upload_try sf req e (snd (create_temp_dirs s))), snd (create_temp_dirs s))"
proof -
  obtain s0 where c: "create_temp_dirs s = (None, s0)"
    using assms(1) by (cases "create_temp_dirs s") auto
  obtain r l s1 where u: "upload_try sf req e s0 = (r, l, s1)"
    by (cases "upload_try sf req e s0") auto
  with upload_try_invalid[OF assms(2), where sf=sf and e=e and s=s0] have "l = no_locals" "s1 = s0" by simp_all
  then show ?thesis using c u
    by (simp add: upload_file_def upload_finally_def no_locals_def)
qed

lemma upload_file_valid:
  assumes "fst (create_temp_dirs s) = None" "passes_validation req"
  shows "upload_file sf req e s = after_validation sf req e (snd (create_temp_dirs s))"
proof -
  obtain s0 where c: "create_temp_dirs s = (None, s0)"
    using assms(1) by (cases "create_temp_dirs s") auto
  show ?thesis using c upload_valid[OF assms(2), where sf=sf and e=e and ?s0.0=s0]
    by (simp add: upload_file_def)
qed

text \<open>The system calls of the validated part: what is called, and on which paths.\<close>

lemma after_validation_calls:
  fixes sf req e s0
  defines "up \<equiv> reserved_upload_path sf req e"
      and "cp \<equiv> reserved_converted_path e"
      and "cmd \<equiv> requested_command sf req e"
  shows "\<exists>xs. syscalls (snd (after_validation sf req e s0)) = syscalls s0 @ Save up # xs \<and>
           set xs \<subseteq> {Run cmd, Exists up, Remove up, Exists cp, Remove cp} \<and>
           Exists up \<in> set xs \<and>
           (status (fst (after_validation sf req e s0)) \<noteq> 200 \<longrightarrow> Exists cp \<in> set xs) \<and>
           (status (fst (after_validation sf req e s0)) = 200 \<longrightarrow> up \<noteq> cp \<longrightarrow> Remove cp \<notin> set xs)"
proof (cases rule: after_validation_cases[where sf=sf and req=req and e=e and ?s0.0=s0])
  case save_failed
  show ?thesis
    unfolding save_failed(3) up_def cp_def cmd_def using save_failed(2)
    by (auto simp add: cleanup_file_fields file_save_fields)
next
  case (encoder_failed err)
  show ?thesis
    unfolding encoder_failed(4) up_def cp_def cmd_def using encoder_failed(3)
    by (auto simp add: cleanup_file_fields file_save_fields subprocess_run_fields)
next
  case converted
  show ?thesis
    unfolding converted(3,4) up_def cp_def cmd_def
    by (auto simp add: cleanup_file_fields file_save_fields subprocess_run_fields)
qed

lemma after_validation_upload_gone:
  assumes "\<not> remove_fails e (reserved_upload_path sf req e)"
  shows "\<not> holds_file (snd (after_validation sf req e s0)) (reserved_upload_path sf req e)"
proof (cases rule: after_validation_cases[where sf=sf and req=req and e=e and ?s0.0=s0])
  case save_failed
  show ?thesis unfolding save_failed(3)
    by (intro holds_file_cleanup_absent holds_file_cleanup_same assms) simp
next
  case (encoder_failed err)
  show ?thesis unfolding encoder_failed(4)
    by (intro holds_file_cleanup_absent holds_file_cleanup_same assms) simp
next
  case converted
  show ?thesis unfolding converted(4)
    by (intro holds_file_cleanup_same assms) simp
qed

lemma after_validation_output_gone:
  assumes "\<not> remove_fails e (reserved_converted_path e)"
      and "status (fst (after_validation sf req e s0)) \<noteq> 200"
  shows "\<not> holds_file (snd (after_validation sf req e s0)) (reserved_converted_path e)"
proof (cases rule: after_validation_cases[where sf=sf and req=req and e=e and ?s0.0=s0])
  case save_failed
  show ?thesis unfolding save_failed(3)
    by (intro holds_file_cleanup_same assms) simp
next
  case (encoder_failed err)
  show ?thesis unfolding encoder_failed(4)
    by (intro holds_file_cleanup_same assms) simp
next
  case converted
  then show ?thesis using assms(2) by simp
qed

section \<open>The handlers and the timestamp store\<close>


lemma with_timestamps_simps [simp]:
  "files (with_timestamps ts s) = files s"
  "syscalls (with_timestamps ts s) = syscalls s"
  "request_timestamps (with_timestamps ts s) = ts"
  "with_timestamps (request_timestamps s) s = s"
  by (simp_all add: with_timestamps_def)

lemma record_call_store: "record_call c (with_timestamps ts s) = with_timestamps ts (record_call c s)"
  by (simp add: record_call_def with_timestamps_def)

lemma os_makedirs_store:
  "os_makedirs p (with_timestamps ts s) = (fst (os_makedirs p s), with_timestamps ts (snd (os_makedirs p s)))"
  by (simp add: os_makedirs_def with_timestamps_def record_call_def Let_def split: option.splits node.splits)

lemma create_temp_dirs_store:
  "create_temp_dirs (with_timestamps ts s) = (fst (create_temp_dirs s), with_timestamps ts (snd (create_temp_dirs s)))"
  by (cases "os_makedirs UPLOAD_FOLDER s")
     (simp add: create_temp_dirs_def os_makedirs_store split: option.splits prod.splits)

lemma os_remove_store:
  "os_remove p e (with_timestamps ts s) = (fst (os_remove p e s), with_timestamps ts (snd (os_remove p e s)))"
  by (simp add: os_remove_def with_timestamps_def record_call_def Let_def split: option.splits node.splits)

lemma cleanup_file_store: "cleanup_file p e (with_timestamps ts s) = with_timestamps ts (cleanup_file p e s)"
  by (simp add: cleanup_file_def os_path_exists_def record_call_store os_remove_store split: option.splits bool.splits)

lemma file_save_store:
  "file_save f p e (with_timestamps ts s) = (fst (file_save f p e s), with_timestamps ts (snd (file_save f p e s)))"
  by (simp add: file_save_def with_timestamps_def record_call_def Let_def split: option.splits save_outcome.splits)

lemma subprocess_run_store:
  "subprocess_run c e (with_timestamps ts s) = (fst (subprocess_run c e s), with_timestamps ts (snd (subprocess_run c e s)))"
  by (simp add: subprocess_run_def with_timestamps_def record_call_def Let_def split: option.splits encoder_outcome.splits)

lemma upload_finally_store: "upload_finally l e (with_timestamps ts s) = with_timestamps ts (upload_finally l e s)"
  by (simp add: upload_finally_def Let_def cleanup_file_store split: option.splits)

lemma send_from_directory_store:
  "send_from_directory d n e (with_timestamps ts s) =
     (fst (send_from_directory d n e s), with_timestamps ts (snd (send_from_directory d n e s)))"
  by (simp add: send_from_directory_def with_timestamps_def record_call_def Let_def split: option.splits node.splits)

lemma upload_try_store:
  "upload_try sf req e (with_timestamps ts s) =
     (fst (upload_try sf req e s), fst (snd (upload_try sf req e s)),
      with_timestamps ts (snd (snd (upload_try sf req e s))))"
proof (cases "request_files req")
  case (Inl err)
  then show ?thesis by (simp add: upload_try_def)
next
  case (Inr fls)
  then show ?thesis
  proof (cases fls)
  case None
  then show ?thesis using Inr by (simp add: upload_try_def)
next
  case (Some fl)
  note rf = Inr[unfolded Some]
  show ?thesis
  proof (cases "filename fl = [] \<or> \<not> allowed_file (filename fl) \<or>
      (case content_length req of None \<Rightarrow> False | Some n \<Rightarrow> n \<noteq> 0 \<and> n > MAX_CONTENT_LENGTH)")
    case True
    then show ?thesis using rf by (auto simp add: upload_try_def)
  next
    case False
    define up where "up = os_path_join UPLOAD_FOLDER (uuid4 e @ ''.'' @
      (if CHR ''.'' \<in> set (sf (filename fl)) then str_lower (rsplit_dot_1 (sf (filename fl))) else []))"
    obtain r1 s1 where fs: "file_save fl up e s = (r1, s1)" by (cases "file_save fl up e s")
    show ?thesis
    proof (cases r1)
      case (Some err)
      then show ?thesis using False rf fs
        by (simp add: upload_try_def Let_def file_save_store up_def)
    next
      case None
      define cmd where "cmd = ffmpeg_command up
         (str_lower (case form_compression req of None \<Rightarrow> ''medium'' | Some v \<Rightarrow> v))
         (str_lower (case form_resolution req of None \<Rightarrow> ''original'' | Some v \<Rightarrow> v))
         (os_path_join CONVERTED_FOLDER (uuid4 e @ ''.mp4''))"
      obtain r2 s2 where sr: "subprocess_run cmd e s1 = (r2, s2)" by (cases "subprocess_run cmd e s1")
      show ?thesis using False rf fs None sr
        by (cases r2; cases "projl r2")
           (simp_all add: upload_try_def Let_def file_save_store subprocess_run_store up_def cmd_def)
    qed
  qed
qed
qed

lemma upload_file_store:
  "upload_file sf req e (with_timestamps ts s) =
     (fst (upload_file sf req e s), with_timestamps ts (snd (upload_file sf req e s)))"
  by (simp add: upload_file_def create_temp_dirs_store upload_try_store upload_finally_store
      split: option.split prod.split)

lemma index_store:
  "index e (with_timestamps ts s) = (fst (index e s), with_timestamps ts (snd (index e s)))"
  by (simp add: index_def send_from_directory_store split: prod.split sum.split error.split)

lemma download_file_store:
  "download_file sf n e (with_timestamps ts s) =
     (fst (download_file sf n e s), with_timestamps ts (snd (download_file sf n e s)))"
proof (cases "sf n = n")
  case False
  then show ?thesis by (simp add: download_file_def)
next
  case True
  define p where "p = os_path_join CONVERTED_FOLDER n"
  define s2 where "s2 = record_call (Isfile p) (record_call (Exists p) s)"
  obtain r s3 where sd: "send_from_directory CONVERTED_FOLDER n e s2 = (r, s3)"
    by (cases "send_from_directory CONVERTED_FOLDER n e s2")
  show ?thesis using True sd
    by (cases r)
       (simp_all add: download_file_def Let_def os_path_exists_def os_path_isfile_def record_call_store
         send_from_directory_store cleanup_file_store p_def s2_def split: bool.split)
qed

section \<open>Evaluating the model on concrete inputs\<close>

lemmas model_defs = upload_route_def rate_limit_def upload_file_def upload_try_def upload_finally_def
  cleanup_file_def os_remove_def os_path_exists_def os_path_isfile_def create_temp_dirs_def os_makedirs_def
  record_call_def file_save_def subprocess_run_def ffmpeg_command_def crf_flags_def scale_flags_def
  json_error_def no_locals_def internal_server_error_def send_from_directory_def text_response_def
  index_def download_file_def timestamps_of_def set_timestamps_def too_many_requests_def
  UPLOAD_FOLDER_def CONVERTED_FOLDER_def MAX_CONTENT_LENGTH_def MAX_FILE_SIZE_MB_def
  RATE_LIMIT_REQUESTS_def RATE_LIMIT_WINDOW_SECONDS_def os_path_join_def
  fresh_state_def sample_env_def sample_request_def bare_request_def at_time_def Let_def
  stubborn_env_def broken_encoder_env_def stubborn_broken_env_def stocked_fs_def
  five_at_0_def five_at_59_def crowded_state_def
  allowed_file_def ALLOWED_EXTENSIONS_def lower_char_def rsplit_dot_1_def
  request_files_def declared_too_large_def
  new_calls_def holds_file_def reserved_upload_path_def reserved_converted_path_def requested_command_def

lemmas sanitiser_defs = secure_filename_def strip_chars_def safe_char_def is_space_def

lemma secure_filename_movie: "secure_filename ''movie.MP4'' = ''movie.MP4''"
  by (simp add: sanitiser_defs)

lemma secure_filename_traversal: "secure_filename ''..%2Fsecret'' = ''2Fsecret''"
  by (simp add: sanitiser_defs)

lemma secure_filename_token: "secure_filename ''0f8c.mp4'' = ''0f8c.mp4''"
  by (simp add: sanitiser_defs)


section \<open>Release of the uploaded input file\<close>

lemma with_timestamps_calls [simp]:
  "new_calls s (with_timestamps ts s') = new_calls s s'"
  "new_calls (with_timestamps ts s) s' = new_calls s s'"
  "holds_file (with_timestamps ts s) p = holds_file s p"
  by (simp_all add: new_calls_def holds_file_def)

lemma new_calls_same [simp]: "new_calls s s = []"
  by (simp add: new_calls_def)

text \<open>The decorated handler either answers 429 or runs the handler; the store aside, the
  state is that of the undecorated handler.\<close>

lemma upload_route_cases:
  obtains (limited) ts where "upload_route sf req e s = (too_many_requests, with_timestamps ts s)"
  | (let_through) ts where
      "upload_route sf req e s =
         (fst (upload_file sf req e s), with_timestamps ts (snd (upload_file sf req e s)))"
proof -
  define kept where
    "kept = filter (\<lambda>ts. now e - ts < RATE_LIMIT_WINDOW_SECONDS) (timestamps_of s (remote_addr req))"
  show thesis
  proof (cases "int (length kept) \<ge> RATE_LIMIT_REQUESTS")
    case True
    then have "upload_route sf req e s =
        (too_many_requests, with_timestamps ((request_timestamps s)(remote_addr req \<mapsto> kept)) s)"
      by (simp add: upload_route_def rate_limit_def Let_def kept_def set_timestamps_def
          with_timestamps_def)
    then show thesis by (rule limited)
  next
    case False
    then have "upload_route sf req e s =
        upload_file sf req e
          (with_timestamps ((request_timestamps s)(remote_addr req \<mapsto> kept @ [now e])) s)"
      by (simp add: upload_route_def rate_limit_def Let_def kept_def set_timestamps_def
          with_timestamps_def timestamps_of_def)
    then show thesis using let_through by (simp add: upload_file_store)
  qed
qed

text \<open>The handler outside the validated part: it saves nothing and creates no file.\<close>

lemma upload_file_rejected:
  assumes "fst (create_temp_dirs s) \<noteq> None \<or> \<not> passes_validation req"
  shows "snd (upload_file sf req e s) = snd (create_temp_dirs s)"
  using assms upload_file_dirs_failed[of s sf req e] upload_file_invalid[of s req sf e]
  by (cases "fst (create_temp_dirs s) = None") auto

lemma create_temp_dirs_no_file:
  "holds_file (snd (create_temp_dirs s)) p \<Longrightarrow> files (snd (create_temp_dirs s)) p = files s p"
  by (auto simp add: holds_file_def create_temp_dirs_fields split: if_splits)

lemma create_temp_dirs_no_save:
  "Save q \<notin> set (new_calls s (snd (create_temp_dirs s)))"
  using create_temp_dirs_fields(5)[of s] by auto

lemma upload_file_input_released:
  fixes sf req e s
  defines "s' \<equiv> snd (upload_file sf req e s)"
  shows "(Save p \<in> set (new_calls s s') \<longrightarrow>
            p = reserved_upload_path sf req e \<and> Exists p \<in> set (new_calls s s') \<and>
            (\<not> remove_fails e p \<longrightarrow> \<not> holds_file s' p)) \<and>
         ((\<forall>q. Save q \<notin> set (new_calls s s')) \<longrightarrow> holds_file s' p \<longrightarrow> files s' p = files s p)"
proof (cases "fst (create_temp_dirs s) \<noteq> None \<or> \<not> passes_validation req")
  case True
  then have "s' = snd (create_temp_dirs s)" unfolding s'_def by (rule upload_file_rejected)
  then show ?thesis using create_temp_dirs_no_file create_temp_dirs_no_save by simp
next
  case False
  then have v: "upload_file sf req e s = after_validation sf req e (snd (create_temp_dirs s))"
    by (simp add: upload_file_valid)
  define s0 where "s0 = snd (create_temp_dirs s)"
  define up where "up = reserved_upload_path sf req e"
  obtain xs where xs: "syscalls s' = syscalls s0 @ Save up # xs"
    "set xs \<subseteq> {Run (requested_command sf req e), Exists up, Remove up,
       Exists (reserved_converted_path e), Remove (reserved_converted_path e)}"
    "Exists up \<in> set xs"
    using after_validation_calls[where sf=sf and req=req and e=e and ?s0.0=s0]
    unfolding s'_def v s0_def up_def by blast
  from False have "syscalls s0 = syscalls s @ [Makedirs UPLOAD_FOLDER, Makedirs CONVERTED_FOLDER]"
    unfolding s0_def by (simp add: create_temp_dirs_fields)
  with xs(1) have nc: "new_calls s s' = [Makedirs UPLOAD_FOLDER, Makedirs CONVERTED_FOLDER] @ Save up # xs"
    by simp
  have gone: "\<not> remove_fails e up \<longrightarrow> \<not> holds_file s' up"
    unfolding s'_def v up_def by (simp add: after_validation_upload_gone)
  show ?thesis using nc xs(2,3) gone unfolding up_def by auto
qed


text \<open>
  Claim C1, as amended. On every exit of \<open>/upload\<close> that has saved an input file (the only
  path ever saved to is the reserved input path), \<open>cleanup_file\<close> has been called on that
  path, and no file is left there unless \<open>os.remove\<close> failed, which \<open>cleanup_file\<close> logs
  and swallows. On the exits that saved nothing (rate limit, directory creation, validation)
  no file was created at all.
\<close>

theorem upload_input_file_released:
  assumes "upload_route sf req e s = (resp, s')"
  shows "(Save p \<in> set (new_calls s s') \<longrightarrow>
            p = reserved_upload_path sf req e \<and> Exists p \<in> set (new_calls s s') \<and>
            (\<not> remove_fails e p \<longrightarrow> \<not> holds_file s' p)) \<and>
         ((\<forall>q. Save q \<notin> set (new_calls s s')) \<longrightarrow> holds_file s' p \<longrightarrow> files s' p = files s p)"
proof (cases rule: upload_route_cases[where sf=sf and req=req and e=e and s=s])
  case (limited ts)
  with assms have "s' = with_timestamps ts s" by simp
  then show ?thesis by simp
next
  case (let_through ts)
  with assms have "s' = with_timestamps ts (snd (upload_file sf req e s))" by simp
  then show ?thesis
    using upload_file_input_released[where sf=sf and req=req and e=e and s=s and p=p] by simp
qed

theorem upload_input_file_released_witness:
  "Save ''uploads/0f8c.mp4''
     \<in> set (new_calls (fresh_state Map.empty)
              (snd (upload_route secure_filename sample_request sample_env (fresh_state Map.empty)))) \<and>
   Exists ''uploads/0f8c.mp4''
     \<in> set (new_calls (fresh_state Map.empty)
              (snd (upload_route secure_filename sample_request sample_env (fresh_state Map.empty)))) \<and>
   \<not> remove_fails sample_env ''uploads/0f8c.mp4'' \<and>
   \<not> holds_file (snd (upload_route secure_filename sample_request sample_env (fresh_state Map.empty)))
        ''uploads/0f8c.mp4''"
proof -
  let ?s0 = "fresh_state Map.empty"
  let ?r = "upload_route secure_filename sample_request sample_env ?s0"
  have run: "?r = (fst ?r, snd ?r)" by simp
  have saved: "Save ''uploads/0f8c.mp4'' \<in> set (new_calls ?s0 (snd ?r))"
    by (simp add: model_defs secure_filename_movie)
  have ok: "\<not> remove_fails sample_env ''uploads/0f8c.mp4''"
    by (simp add: sample_env_def)
  from upload_input_file_released[OF run, of "''uploads/0f8c.mp4''"] saved ok
  show ?thesis by blast
qed

text \<open>
  Claim C1 as stated fails where the operating system refuses the removal: the upload
  succeeds with 200 and the saved input file is still on disk afterwards.
\<close>

theorem upload_input_file_left_behind:
  "status (fst (upload_route secure_filename sample_request stubborn_env (fresh_state Map.empty))) = 200 \<and>
   Save ''uploads/0f8c.mp4''
     \<in> set (new_calls (fresh_state Map.empty)
              (snd (upload_route secure_filename sample_request stubborn_env (fresh_state Map.empty)))) \<and>
   holds_file (snd (upload_route secure_filename sample_request stubborn_env (fresh_state Map.empty)))
     ''uploads/0f8c.mp4''"
  by (simp add: model_defs secure_filename_movie)

section \<open>Release of the output file of a failed conversion\<close>

lemma last_requested_command [simp]:
  "last (requested_command sf req e) = reserved_converted_path e"
  by (simp add: requested_command_def ffmpeg_command_def)

lemma after_validation_status:
  "status (fst (after_validation sf req e s0)) \<in> {200, 500}"
  by (cases rule: after_validation_cases[where sf=sf and req=req and e=e and ?s0.0=s0]) simp_all

lemma after_validation_output_kept:
  assumes "status (fst (after_validation sf req e s0)) = 200"
      and "reserved_upload_path sf req e \<noteq> reserved_converted_path e"
  shows "\<exists>fs out. encoder e (requested_command sf req e) fs = Exited 0 out \<and>
           (case out of
              Some b \<Rightarrow> fs (reserved_converted_path e) \<noteq> Some Dir \<longrightarrow>
                        files (snd (after_validation sf req e s0)) (reserved_converted_path e) = Some (File b)
            | None \<Rightarrow> files (snd (after_validation sf req e s0)) (reserved_converted_path e) =
                        fs (reserved_converted_path e))"
proof (cases rule: after_validation_cases[where sf=sf and req=req and e=e and ?s0.0=s0])
  case save_failed
  then show ?thesis using assms(1) by simp
next
  case (encoder_failed err)
  then show ?thesis using assms(1) by simp
next
  case converted
  define s1 where "s1 = snd (file_save (the (videoFile req)) (reserved_upload_path sf req e) e s0)"
  define cmd where "cmd = requested_command sf req e"
  from converted(2) obtain out where out: "encoder e cmd (files s1) = Exited 0 out"
    unfolding s1_def cmd_def
    by (auto simp: subprocess_run_result split: encoder_outcome.splits if_splits)
  have "files (snd (after_validation sf req e s0)) (reserved_converted_path e) =
        files (snd (subprocess_run cmd e s1)) (reserved_converted_path e)"
    unfolding converted(4) s1_def cmd_def using assms(2) by (simp add: files_cleanup_other)
  then show ?thesis using out unfolding cmd_def
    by (intro exI[of _ "files s1"] exI[of _ out])
       (auto simp add: subprocess_run_fields split: option.splits)
qed

lemma upload_file_saved:
  assumes "Save p \<in> set (new_calls s (snd (upload_file sf req e s)))"
  shows "upload_file sf req e s = after_validation sf req e (snd (create_temp_dirs s)) \<and>
         fst (create_temp_dirs s) = None"
proof (cases "fst (create_temp_dirs s) \<noteq> None \<or> \<not> passes_validation req")
  case True
  then have "snd (upload_file sf req e s) = snd (create_temp_dirs s)" by (rule upload_file_rejected)
  with assms create_temp_dirs_no_save show ?thesis by simp
next
  case False
  then show ?thesis by (simp add: upload_file_valid)
qed

lemma upload_file_output_released:
  fixes sf req e s
  defines "r \<equiv> upload_file sf req e s"
  defines "cp \<equiv> reserved_converted_path e"
  assumes saved: "Save p \<in> set (new_calls s (snd r))"
  shows "(status (fst r) \<noteq> 200 \<longrightarrow>
            Exists cp \<in> set (new_calls s (snd r)) \<and> (\<not> remove_fails e cp \<longrightarrow> \<not> holds_file (snd r) cp)) \<and>
         (status (fst r) = 200 \<and> CHR ''/'' \<notin> set (uuid4 e) \<longrightarrow>
            Remove cp \<notin> set (new_calls s (snd r)) \<and>
            (\<exists>fs out. encoder e (requested_command sf req e) fs = Exited 0 out \<and>
               (case out of
                  Some b \<Rightarrow> fs cp \<noteq> Some Dir \<longrightarrow> files (snd r) cp = Some (File b)
                | None \<Rightarrow> files (snd r) cp = fs cp)))"
proof -
  define s0 where "s0 = snd (create_temp_dirs s)"
  define up where "up = reserved_upload_path sf req e"
  from saved have v: "r = after_validation sf req e s0" and d: "fst (create_temp_dirs s) = None"
    unfolding r_def s0_def using upload_file_saved by blast+
  obtain xs where xs: "syscalls (snd r) = syscalls s0 @ Save up # xs"
    "status (fst r) \<noteq> 200 \<longrightarrow> Exists cp \<in> set xs"
    "status (fst r) = 200 \<longrightarrow> up \<noteq> cp \<longrightarrow> Remove cp \<notin> set xs"
    using after_validation_calls[where sf=sf and req=req and e=e and ?s0.0=s0]
    unfolding v up_def cp_def by blast
  from d have "syscalls s0 = syscalls s @ [Makedirs UPLOAD_FOLDER, Makedirs CONVERTED_FOLDER]"
    unfolding s0_def by (simp add: create_temp_dirs_fields)
  with xs(1) have nc: "new_calls s (snd r) = [Makedirs UPLOAD_FOLDER, Makedirs CONVERTED_FOLDER] @ Save up # xs"
    by simp
  have a: "status (fst r) \<noteq> 200 \<longrightarrow> \<not> remove_fails e cp \<longrightarrow> \<not> holds_file (snd r) cp"
    unfolding v cp_def using after_validation_output_gone by blast
  have b: "CHR ''/'' \<notin> set (uuid4 e) \<longrightarrow> up \<noteq> cp"
    unfolding up_def cp_def using reserved_paths_distinct by blast
  have c: "status (fst r) = 200 \<longrightarrow> up \<noteq> cp \<longrightarrow>
     (\<exists>fs out. encoder e (requested_command sf req e) fs = Exited 0 out \<and>
               (case out of
                  Some b \<Rightarrow> fs cp \<noteq> Some Dir \<longrightarrow> files (snd r) cp = Some (File b)
                | None \<Rightarrow> files (snd r) cp = fs cp))"
    unfolding v up_def cp_def using after_validation_output_kept by blast
  show ?thesis using nc xs(2,3) a b c by auto
qed


text \<open>
  Claim C3, as amended. For an \<open>/upload\<close> request that got as far as saving its input:
  when the response is not the success response (the save failed, the encoder could not be
  started, or it exited with a non-zero status), \<open>cleanup_file\<close> has been called on the
  output path and no file is left there unless \<open>os.remove\<close> failed; when the conversion
  succeeded (and the identifier holds no path separator) the handler never removes the
  output path, and what the encoder wrote there is still there.
\<close>

theorem failed_conversion_output_released:
  assumes "upload_route sf req e s = (resp, s')"
      and "Save (reserved_upload_path sf req e) \<in> set (new_calls s s')"
  shows "(status resp \<noteq> 200 \<longrightarrow>
            Exists (reserved_converted_path e) \<in> set (new_calls s s') \<and>
            (\<not> remove_fails e (reserved_converted_path e) \<longrightarrow>
               \<not> holds_file s' (reserved_converted_path e))) \<and>
         (status resp = 200 \<and> CHR ''/'' \<notin> set (uuid4 e) \<longrightarrow>
            Remove (reserved_converted_path e) \<notin> set (new_calls s s') \<and>
            (\<exists>fs out. encoder e (requested_command sf req e) fs = Exited 0 out \<and>
               (case out of
                  Some b \<Rightarrow> fs (reserved_converted_path e) \<noteq> Some Dir \<longrightarrow>
                            files s' (reserved_converted_path e) = Some (File b)
                | None \<Rightarrow> files s' (reserved_converted_path e) = fs (reserved_converted_path e))))"
proof (cases rule: upload_route_cases[where sf=sf and req=req and e=e and s=s])
  case (limited ts)
  with assms(1) have "s' = with_timestamps ts s" by simp
  with assms(2) show ?thesis by simp
next
  case (let_through ts)
  with assms have r: "resp = fst (upload_file sf req e s)"
    "s' = with_timestamps ts (snd (upload_file sf req e s))" by simp_all
  with assms(2) have "Save (reserved_upload_path sf req e) \<in> set (new_calls s (snd (upload_file sf req e s)))"
    by simp
  from upload_file_output_released[OF this] show ?thesis
    unfolding r by (simp only: with_timestamps_calls with_timestamps_simps)
qed

theorem failed_conversion_output_released_witness:
  "status (fst (upload_route secure_filename sample_request broken_encoder_env (fresh_state Map.empty))) = 500 \<and>
   \<not> holds_file (snd (upload_route secure_filename sample_request broken_encoder_env (fresh_state Map.empty)))
        ''converted/0f8c.mp4'' \<and>
   status (fst (upload_route secure_filename sample_request sample_env (fresh_state Map.empty))) = 200 \<and>
   Remove ''converted/0f8c.mp4''
     \<notin> set (new_calls (fresh_state Map.empty)
              (snd (upload_route secure_filename sample_request sample_env (fresh_state Map.empty))))"
proof -
  let ?s0 = "fresh_state Map.empty"
  let ?r = "upload_route secure_filename sample_request broken_encoder_env ?s0"
  let ?q = "upload_route secure_filename sample_request sample_env ?s0"
  have run: "?r = (fst ?r, snd ?r)" "?q = (fst ?q, snd ?q)" by simp_all
  have saved:
    "Save (reserved_upload_path secure_filename sample_request broken_encoder_env)
       \<in> set (new_calls ?s0 (snd ?r))"
    "Save (reserved_upload_path secure_filename sample_request sample_env)
       \<in> set (new_calls ?s0 (snd ?q))"
    by (simp_all add: model_defs secure_filename_movie)
  have st: "status (fst ?r) = 500" "status (fst ?q) = 200"
    by (simp_all add: model_defs secure_filename_movie)
  have ok: "\<not> remove_fails broken_encoder_env ''converted/0f8c.mp4''"
    "CHR ''/'' \<notin> set (uuid4 sample_env)"
    by (simp_all add: model_defs)
  have cp: "reserved_converted_path broken_encoder_env = ''converted/0f8c.mp4''"
    "reserved_converted_path sample_env = ''converted/0f8c.mp4''"
    by (simp_all add: model_defs)
  from failed_conversion_output_released[OF run(1) saved(1)]
       failed_conversion_output_released[OF run(2) saved(2)] st ok
  show ?thesis unfolding cp by simp
qed

text \<open>
  Claim C3 as stated fails where the operating system refuses the removal: the encoder
  exits with status 1, the response is 500, and its partial output is still on disk.
\<close>

theorem failed_conversion_output_left_behind:
  "status (fst (upload_route secure_filename sample_request stubborn_broken_env (fresh_state Map.empty))) = 500 \<and>
   files (snd (upload_route secure_filename sample_request stubborn_broken_env (fresh_state Map.empty)))
     ''converted/0f8c.mp4'' = Some (File ''partial'')"
  by (simp add: model_defs secure_filename_movie)

section \<open>Rejections and the filesystem\<close>

lemma create_temp_dirs_ok_files:
  assumes "fst (create_temp_dirs s) = None"
  shows "files (snd (create_temp_dirs s)) p =
           (if p \<in> {UPLOAD_FOLDER, CONVERTED_FOLDER} \<and> files s p = None then Some Dir else files s p)"
proof -
  have "\<not> holds_file s UPLOAD_FOLDER"
    using assms
    by (auto simp add: create_temp_dirs_def os_makedirs_def holds_file_def Let_def
        split: option.splits node.splits prod.splits)
  then show ?thesis by (simp add: create_temp_dirs_fields)
qed

lemma upload_file_status:
  "status (fst (upload_file sf req e s)) \<in> {200, 400, 500}"
proof (cases "fst (create_temp_dirs s) = None")
  case False
  then show ?thesis by (simp add: upload_file_dirs_failed internal_server_error_def)
next
  case True
  show ?thesis
  proof (cases "passes_validation req")
    case True
    with \<open>fst (create_temp_dirs s) = None\<close> show ?thesis
      using after_validation_status[where sf=sf and req=req and e=e and ?s0.0="snd (create_temp_dirs s)"]
      by (auto simp add: upload_file_valid)
  next
    case False
    with \<open>fst (create_temp_dirs s) = None\<close> show ?thesis
      using upload_try_invalid[OF False, where sf=sf and e=e and s="snd (create_temp_dirs s)"]
      by (auto simp add: upload_file_invalid)
  qed
qed

lemma upload_file_validation_rejection:
  assumes "status (fst (upload_file sf req e s)) \<in> {400, 413}"
  shows "\<not> passes_validation req \<and>
         new_calls s (snd (upload_file sf req e s)) = [Makedirs UPLOAD_FOLDER, Makedirs CONVERTED_FOLDER] \<and>
         files (snd (upload_file sf req e s)) p =
           (if p \<in> {UPLOAD_FOLDER, CONVERTED_FOLDER} \<and> files s p = None then Some Dir else files s p)"
proof -
  have ok: "fst (create_temp_dirs s) = None"
    using assms by (rule contrapos_pp) (simp add: upload_file_dirs_failed internal_server_error_def)
  have inv: "\<not> passes_validation req"
  proof
    assume "passes_validation req"
    with ok assms
      after_validation_status[where sf=sf and req=req and e=e and ?s0.0="snd (create_temp_dirs s)"]
    show False by (auto simp add: upload_file_valid)
  qed
  from ok inv have "snd (upload_file sf req e s) = snd (create_temp_dirs s)"
    by (simp add: upload_file_invalid)
  then show ?thesis using ok inv
    by (simp add: create_temp_dirs_ok_files create_temp_dirs_fields(1))
qed

lemma upload_file_invalid_no_save:
  assumes "\<not> passes_validation req"
  shows "Save q \<notin> set (new_calls s (snd (upload_file sf req e s)))"
  using assms upload_file_rejected[where s=s and req=req and sf=sf and e=e]
    create_temp_dirs_no_save[of q s] by simp

text \<open>
  Claim C8, as amended. A request rejected by the rate limiter (429) makes no system call
  and leaves the filesystem as it was. A request rejected by validation (400 or 413) is
  rejected after \<open>create_temp_dirs\<close> has run: the only system calls are the two
  \<open>os.makedirs\<close> calls, and the only change to the filesystem is that the upload and the
  converted directory now exist; no file is saved, created or removed. A request that does
  not pass validation never saves a file. An upload whose declared length is above the
  maximum does not pass validation either; it is answered 500, and like every request
  that is let through and fails validation after the directories were created, it makes
  the same two system calls and no other.
\<close>

theorem rejection_creates_no_temp_file:
  assumes "upload_route sf req e s = (resp, s')"
  shows "(status resp = 429 \<longrightarrow> files s' = files s \<and> syscalls s' = syscalls s) \<and>
         (status resp \<in> {400, 413} \<longrightarrow>
            \<not> passes_validation req \<and>
            new_calls s s' = [Makedirs UPLOAD_FOLDER, Makedirs CONVERTED_FOLDER] \<and>
            files s' p =
              (if p \<in> {UPLOAD_FOLDER, CONVERTED_FOLDER} \<and> files s p = None
               then Some Dir else files s p)) \<and>
         (\<not> passes_validation req \<longrightarrow>
            Save q \<notin> set (new_calls s s') \<and> status resp \<in> {429, 400, 413, 500}) \<and>
         (\<not> passes_validation req \<and> status resp \<noteq> 429 \<and> fst (create_temp_dirs s) = None \<longrightarrow>
            new_calls s s' = [Makedirs UPLOAD_FOLDER, Makedirs CONVERTED_FOLDER] \<and>
            files s' p =
              (if p \<in> {UPLOAD_FOLDER, CONVERTED_FOLDER} \<and> files s p = None
               then Some Dir else files s p))"
proof (cases rule: upload_route_cases[where sf=sf and req=req and e=e and s=s])
  case (limited ts)
  with assms have "resp = too_many_requests" "s' = with_timestamps ts s" by simp_all
  then show ?thesis by (simp add: too_many_requests_def)
next
  case (let_through ts)
  with assms have r: "resp = fst (upload_file sf req e s)"
    "s' = with_timestamps ts (snd (upload_file sf req e s))" by simp_all
  have a: "status resp \<noteq> 429"
    using upload_file_status[of sf req e s] unfolding r by auto
  have b: "status resp \<in> {400, 413} \<longrightarrow>
            \<not> passes_validation req \<and>
            new_calls s s' = [Makedirs UPLOAD_FOLDER, Makedirs CONVERTED_FOLDER] \<and>
            files s' p =
              (if p \<in> {UPLOAD_FOLDER, CONVERTED_FOLDER} \<and> files s p = None
               then Some Dir else files s p)"
    unfolding r using upload_file_validation_rejection[where sf=sf and req=req and e=e and s=s and p=p]
    by simp
  have c: "\<not> passes_validation req \<longrightarrow> Save q \<notin> set (new_calls s s')"
    unfolding r using upload_file_invalid_no_save[where sf=sf and req=req and e=e and s=s and q=q]
    by simp
  have d: "status resp \<in> {429, 400, 413, 500} \<or> status resp = 200"
    using upload_file_status[of sf req e s] unfolding r by auto
  have e: "\<not> passes_validation req \<longrightarrow> status resp \<noteq> 200"
  proof (cases "fst (create_temp_dirs s) = None")
    case True
    then show ?thesis unfolding r
      using upload_try_invalid[where req=req and sf=sf and e=e and s="snd (create_temp_dirs s)"]
      by (auto simp add: upload_file_invalid)
  next
    case False
    then show ?thesis unfolding r
      by (simp add: upload_file_dirs_failed internal_server_error_def)
  qed
  have f: "\<not> passes_validation req \<and> fst (create_temp_dirs s) = None \<longrightarrow>
            new_calls s s' = [Makedirs UPLOAD_FOLDER, Makedirs CONVERTED_FOLDER] \<and>
            files s' p =
              (if p \<in> {UPLOAD_FOLDER, CONVERTED_FOLDER} \<and> files s p = None
               then Some Dir else files s p)"
  proof
    assume h: "\<not> passes_validation req \<and> fst (create_temp_dirs s) = None"
    then have "snd (upload_file sf req e s) = snd (create_temp_dirs s)"
      by (simp add: upload_file_rejected)
    then show "new_calls s s' = [Makedirs UPLOAD_FOLDER, Makedirs CONVERTED_FOLDER] \<and>
            files s' p =
              (if p \<in> {UPLOAD_FOLDER, CONVERTED_FOLDER} \<and> files s p = None
               then Some Dir else files s p)"
      unfolding r using h by (simp add: create_temp_dirs_ok_files create_temp_dirs_fields(1))
  qed
  show ?thesis using a b c d e f by blast
qed

theorem rejection_creates_no_temp_file_witness:
  "status (fst (upload_route secure_filename bare_request sample_env (fresh_state Map.empty))) = 400 \<and>
   \<not> passes_validation bare_request \<and>
   new_calls (fresh_state Map.empty)
     (snd (upload_route secure_filename bare_request sample_env (fresh_state Map.empty))) =
     [Makedirs UPLOAD_FOLDER, Makedirs CONVERTED_FOLDER] \<and>
   files (snd (upload_route secure_filename bare_request sample_env (fresh_state Map.empty)))
     ''uploads/0f8c.mp4'' = None"
proof -
  let ?s0 = "fresh_state Map.empty"
  let ?r = "upload_route secure_filename bare_request sample_env ?s0"
  have run: "?r = (fst ?r, snd ?r)" by simp
  have st: "status (fst ?r) = 400" by (simp add: model_defs)
  from rejection_creates_no_temp_file[OF run, of "''uploads/0f8c.mp4''"] st
  show ?thesis by (simp add: fresh_state_def UPLOAD_FOLDER_def CONVERTED_FOLDER_def)
qed

text \<open>
  Claim C8 as stated fails: a request without a file part is answered 400 by validation,
  and handling it has created the upload directory, which did not exist before.
\<close>

theorem validation_rejection_creates_directories:
  "status (fst (upload_route secure_filename bare_request sample_env (fresh_state Map.empty))) = 400 \<and>
   files (fresh_state Map.empty) ''uploads'' = None \<and>
   files (snd (upload_route secure_filename bare_request sample_env (fresh_state Map.empty)))
     ''uploads'' = Some Dir"
  by (simp add: model_defs)

section \<open>Validation of an upload\<close>

lemma rsplit_dot_1_append:
  assumes "CHR ''.'' \<notin> set ext"
  shows "rsplit_dot_1 (stem @ ''.'' @ ext) = ext"
proof -
  have "takeWhile (\<lambda>c. c \<noteq> CHR ''.'') (rev ext @ CHR ''.'' # rev stem) =
        rev ext @ takeWhile (\<lambda>c. c \<noteq> CHR ''.'') (CHR ''.'' # rev stem)"
    by (rule takeWhile_append2) (use assms in auto)
  then show ?thesis by (simp add: rsplit_dot_1_def)
qed

lemma rsplit_dot_1_decompose:
  assumes "CHR ''.'' \<in> set name"
  shows "\<exists>stem. name = stem @ ''.'' @ rsplit_dot_1 name" and "CHR ''.'' \<notin> set (rsplit_dot_1 name)"
proof -
  let ?P = "\<lambda>c. c \<noteq> CHR ''.''"
  from assms have "dropWhile ?P (rev name) \<noteq> []" by (simp add: dropWhile_eq_Nil_conv) 
  then obtain c rest where d: "dropWhile ?P (rev name) = c # rest"
    by (cases "dropWhile ?P (rev name)") auto
  then have "\<not> ?P c" using hd_dropWhile[of ?P "rev name"] by fastforce
  then have c: "c = CHR ''.''" by simp
  have "rev name = takeWhile ?P (rev name) @ dropWhile ?P (rev name)" by simp
  then have "rev (rev name) = rev (takeWhile ?P (rev name) @ CHR ''.'' # rest)"
    using d c by simp
  then have "name = rev rest @ ''.'' @ rsplit_dot_1 name"
    by (simp add: rsplit_dot_1_def)
  then show "\<exists>stem. name = stem @ ''.'' @ rsplit_dot_1 name" ..
  show "CHR ''.'' \<notin> set (rsplit_dot_1 name)"
    using set_takeWhileD[of "CHR ''.''" ?P "rev name"] by (auto simp: rsplit_dot_1_def)
qed

lemma allowed_file_iff:
  "allowed_file name \<longleftrightarrow>
     (\<exists>stem ext. name = stem @ ''.'' @ ext \<and> CHR ''.'' \<notin> set ext \<and>
        str_lower ext \<in> {''mp4'', ''avi'', ''mov'', ''wmv'', ''flv'', ''mkv'', ''webm'',
                         ''mpeg'', ''mpg'', ''m4v''})"
proof
  assume a: "allowed_file name"
  then have dot: "CHR ''.'' \<in> set name" by (simp add: allowed_file_def)
  from rsplit_dot_1_decompose[OF dot] a show
    "\<exists>stem ext. name = stem @ ''.'' @ ext \<and> CHR ''.'' \<notin> set ext \<and>
        str_lower ext \<in> {''mp4'', ''avi'', ''mov'', ''wmv'', ''flv'', ''mkv'', ''webm'',
                         ''mpeg'', ''mpg'', ''m4v''}"
    unfolding allowed_file_def ALLOWED_EXTENSIONS_def by blast
next
  assume "\<exists>stem ext. name = stem @ ''.'' @ ext \<and> CHR ''.'' \<notin> set ext \<and>
        str_lower ext \<in> {''mp4'', ''avi'', ''mov'', ''wmv'', ''flv'', ''mkv'', ''webm'',
                         ''mpeg'', ''mpg'', ''m4v''}"
  then obtain stem ext where n: "name = stem @ ''.'' @ ext" "CHR ''.'' \<notin> set ext"
    "str_lower ext \<in> ALLOWED_EXTENSIONS" unfolding ALLOWED_EXTENSIONS_def by blast
  then show "allowed_file name"
    unfolding allowed_file_def n(1) by (simp add: rsplit_dot_1_append del: append.simps)
qed

lemma allowed_file_examples:
  "allowed_file ''movie.MP4''" "\<not> allowed_file ''movie.exe''" "\<not> allowed_file ''movie''"
  by (simp_all add: allowed_file_def ALLOWED_EXTENSIONS_def lower_char_def rsplit_dot_1_def)

text \<open>Lowering, letter by letter; and the extension spelt with the Kelvin sign.\<close>

lemma lower_char_letters:
  "map lower_char ''ABCDEFGHIJKLMNOPQRSTUVWXYZ'' = ''abcdefghijklmnopqrstuvwxyz''"
  by (simp add: lower_char_def)

lemma lower_char_other: "c \<notin> set ''ABCDEFGHIJKLMNOPQRSTUVWXYZ'' \<Longrightarrow> lower_char c = c"
  by (auto simp add: lower_char_def)

lemma str_lower_plain: "CHR 0xE2 \<notin> set s \<Longrightarrow> str_lower s = map lower_char s"
  by (induction s rule: str_lower.induct) auto

lemma allowed_file_kelvin: "allowed_file (''movie.m'' @ [CHR 0xE2, CHR 0x84, CHR 0xAA] @ ''v'')"
  by (simp add: allowed_file_def ALLOWED_EXTENSIONS_def lower_char_def rsplit_dot_1_def)

lemma upload_try_valid_saves:
  assumes "passes_validation req"
  shows "Save (reserved_upload_path sf req e) \<in> set (new_calls s (snd (snd (upload_try sf req e s))))"
    and "status (fst (upload_try sf req e s)) \<in> {200, 500}"
proof -
  from assms obtain fl where f: "videoFile req = Some fl"
    by (auto simp: passes_validation_def split: option.splits)
  from assms f have v: "filename fl \<noteq> []" "allowed_file (filename fl)"
    "\<not> (case content_length req of None \<Rightarrow> False | Some n \<Rightarrow> n \<noteq> 0 \<and> n > MAX_CONTENT_LENGTH)"
    "request_files req = Inr (Some fl)"
    using request_files_parsed[OF passes_validation_not_large[OF assms]]
    by (auto simp: passes_validation_def split: option.splits)
  define up where "up = reserved_upload_path sf req e"
  define cmd where "cmd = requested_command sf req e"
  obtain r1 s1 where fs: "file_save fl up e s = (r1, s1)" by (cases "file_save fl up e s")
  obtain r2 s2 where sr: "subprocess_run cmd e s1 = (r2, s2)" by (cases "subprocess_run cmd e s1")
  have l1: "syscalls s1 = syscalls s @ [Save up]"
    using file_save_fields(2)[of fl up e s] fs by simp
  have l2: "syscalls s2 = syscalls s @ [Save up, Run cmd]"
    using subprocess_run_fields(2)[of cmd e s1] sr l1 by simp
  have "snd (snd (upload_try sf req e s)) = (if r1 = None then s2 else s1) \<and>
        status (fst (upload_try sf req e s)) \<in> {200, 500}"
  proof (cases r1)
    case (Some err)
    then show ?thesis using f v fs
      by (simp add: upload_try_def Let_def reserved_upload_path_def up_def json_error_def)
  next
    case None
    show ?thesis
    proof (cases r2)
      case (Inl err)
      then show ?thesis using f v fs None sr
        by (cases err)
           (simp_all add: upload_try_def Let_def json_error_def
             reserved_upload_path_def reserved_converted_path_def requested_command_def up_def cmd_def)
    next
      case (Inr rc)
      then show ?thesis using f v fs None sr
        by (simp add: upload_try_def Let_def
             reserved_upload_path_def reserved_converted_path_def requested_command_def up_def cmd_def)
    qed
  qed
  then show "Save (reserved_upload_path sf req e) \<in> set (new_calls s (snd (snd (upload_try sf req e s))))"
    and "status (fst (upload_try sf req e s)) \<in> {200, 500}"
    using l1 l2 by (auto simp: new_calls_def up_def)
qed

lemma upload_file_response:
  "fst (create_temp_dirs s) = None \<Longrightarrow>
   fst (upload_file sf req e s) = fst (upload_try sf req e (snd (create_temp_dirs s)))"
  by (cases "create_temp_dirs s") (auto simp: upload_file_def split: prod.splits)

text \<open>
  What the \<open>try\<close> block does with a request, check by check. The declared content length
  is checked first, by the framework when \<open>request.files\<close> is read, and its exception is
  answered 500; so the check of line 123, which would answer 413, is never reached with
  a length above the maximum.
\<close>

lemma validation_as_coded:
  "(declared_too_large req \<longrightarrow>
      upload_try sf req e s =
        (json_error ''An internal server error occurred.'' 500, no_locals, s)) \<and>
   (\<not> declared_too_large req \<and> videoFile req = None \<longrightarrow>
      upload_try sf req e s = (json_error ''No file part provided.'' 400, no_locals, s)) \<and>
   (\<not> declared_too_large req \<and> videoFile req = Some fl \<and> filename fl = [] \<longrightarrow>
      upload_try sf req e s = (json_error ''No file selected.'' 400, no_locals, s)) \<and>
   (\<not> declared_too_large req \<and> videoFile req = Some fl \<and> filename fl \<noteq> [] \<and>
    \<not> allowed_file (filename fl) \<longrightarrow>
      upload_try sf req e s = (json_error ''Invalid file type.'' 400, no_locals, s)) \<and>
   (\<not> declared_too_large req \<and> videoFile req = Some fl \<and> filename fl \<noteq> [] \<and>
    allowed_file (filename fl) \<longrightarrow>
      Save (reserved_upload_path sf req e) \<in> set (new_calls s (snd (snd (upload_try sf req e s)))) \<and>
      status (fst (upload_try sf req e s)) \<in> {200, 500}) \<and>
   (fst (create_temp_dirs s) = None \<longrightarrow>
      fst (upload_file sf req e s) = fst (upload_try sf req e (snd (create_temp_dirs s)))) \<and>
   (allowed_file name \<longleftrightarrow>
      (\<exists>stem ext. name = stem @ ''.'' @ ext \<and> CHR ''.'' \<notin> set ext \<and>
         str_lower ext \<in> {''mp4'', ''avi'', ''mov'', ''wmv'', ''flv'', ''mkv'', ''webm'',
                          ''mpeg'', ''mpg'', ''m4v''})) \<and>
   (CHR 0xE2 \<notin> set ext \<longrightarrow> str_lower ext = map lower_char ext) \<and>
   map lower_char ''ABCDEFGHIJKLMNOPQRSTUVWXYZ'' = ''abcdefghijklmnopqrstuvwxyz'' \<and>
   (c \<notin> set ''ABCDEFGHIJKLMNOPQRSTUVWXYZ'' \<longrightarrow> lower_char c = c) \<and>
   MAX_CONTENT_LENGTH = 100 * 1024 * 1024"
proof -
  have p: "\<not> declared_too_large req \<and> videoFile req = Some fl \<and> filename fl \<noteq> [] \<and>
    allowed_file (filename fl) \<longrightarrow> passes_validation req"
    by (auto simp: passes_validation_def declared_too_large_def split: option.splits)
  show ?thesis
    using p upload_try_oversize[of req sf e s] upload_try_no_file[of req sf e s]
      upload_try_empty_name[of req fl sf e s] upload_try_bad_type[of req fl sf e s]
      upload_try_valid_saves[of req sf e s] upload_file_response[of s sf req e]
      allowed_file_iff[of name] str_lower_plain[of ext] lower_char_letters lower_char_other[of c]
    by (simp add: MAX_CONTENT_LENGTH_def MAX_FILE_SIZE_MB_def)
qed

lemma upload_route_never_413: "status (fst (upload_route sf req e s)) \<noteq> 413"
proof (cases rule: upload_route_cases[where sf=sf and req=req and e=e and s=s])
  case (limited ts)
  then show ?thesis by (simp add: too_many_requests_def)
next
  case (let_through ts)
  then show ?thesis using upload_file_status[of sf req e s] by auto
qed

text \<open>
  Claim C5 says that an upload whose declared content length is above the configured
  maximum is rejected by the fourth validation check with a client error. The program
  does not do that: for an upload of \<open>movie.MP4\<close> with a declared length of 100 MB and
  one byte, reading \<open>request.files\<close> on line 106 raises inside the \<open>try\<close> block, the clause
  \<open>except Exception\<close> catches it, and the answer is 500 with the message of an internal
  error. The check of line 123 with its answer 413 is never reached.
\<close>

theorem oversize_upload_answered_500:
  "videoFile oversize_request = Some \<lparr>filename = ''movie.MP4'', content = ''avi bytes''\<rparr> \<and>
   allowed_file ''movie.MP4'' \<and>
   content_length oversize_request = Some 104857601 \<and>
   MAX_CONTENT_LENGTH = 104857600 \<and>
   fst (upload_route secure_filename oversize_request sample_env (fresh_state Map.empty)) =
     \<lparr>body = Json_error ''An internal server error occurred.'', status = 500\<rparr>"
  by (simp add: model_defs oversize_request_def)

section \<open>The encoder command line\<close>

lemma str_lower_defaults:
  "str_lower ''medium'' = ''medium''" "str_lower ''original'' = ''original''"
  by (simp_all add: lower_char_def)

lemma crf_flags_fallback: "c \<notin> {''low'', ''high''} \<Longrightarrow> crf_flags c = crf_flags ''medium''"
  by (simp add: crf_flags_def)

lemma scale_flags_fallback:
  "r \<notin> {''1080p'', ''720p'', ''480p''} \<Longrightarrow> scale_flags r = scale_flags ''original''"
  by (simp add: scale_flags_def)

lemma ffmpeg_command_fallback:
  "str_lower c \<notin> {''low'', ''high''} \<Longrightarrow>
   ffmpeg_command up (str_lower c) r cp = ffmpeg_command up (str_lower ''medium'') r cp"
  "str_lower r \<notin> {''1080p'', ''720p'', ''480p''} \<Longrightarrow>
   ffmpeg_command up c (str_lower r) cp = ffmpeg_command up c (str_lower ''original'') cp"
  using crf_flags_fallback[of "str_lower c"] scale_flags_fallback[of "str_lower r"]
  unfolding str_lower_defaults by (simp_all add: ffmpeg_command_def)

lemma requested_command_fallback:
  "str_lower c \<notin> {''low'', ''high''} \<Longrightarrow>
   requested_command sf (req\<lparr>form_compression := Some c\<rparr>) e =
   requested_command sf (req\<lparr>form_compression := None\<rparr>) e"
  "str_lower r \<notin> {''1080p'', ''720p'', ''480p''} \<Longrightarrow>
   requested_command sf (req\<lparr>form_resolution := Some r\<rparr>) e =
   requested_command sf (req\<lparr>form_resolution := None\<rparr>) e"
  by (simp_all add: requested_command_def reserved_upload_path_def ffmpeg_command_fallback)

text \<open>Two requests that differ only in their form fields and ask for the same command
  line are treated alike.\<close>

lemma upload_file_same_command:
  assumes "videoFile req' = videoFile req" "content_length req' = content_length req"
      and "requested_command sf req' e = requested_command sf req e"
  shows "upload_file sf req' e s = upload_file sf req e s"
proof -
  have pv: "passes_validation req' = passes_validation req"
    unfolding passes_validation_def assms(1,2) by (rule refl)
  have up: "reserved_upload_path sf req' e = reserved_upload_path sf req e"
    using assms(1) by (simp add: reserved_upload_path_def)
  show ?thesis
  proof (cases "fst (create_temp_dirs s) = None")
    case False
    then show ?thesis by (simp add: upload_file_dirs_failed)
  next
    case True
    show ?thesis
    proof (cases "passes_validation req")
      case True
      have "after_validation sf req' e (snd (create_temp_dirs s)) =
            after_validation sf req e (snd (create_temp_dirs s))"
        unfolding after_validation_def up assms(1,3) by (rule refl)
      with True \<open>fst (create_temp_dirs s) = None\<close> pv show ?thesis
        by (simp add: upload_file_valid)
    next
      case False
      have lg: "declared_too_large req' = declared_too_large req"
        by (simp add: declared_too_large_def assms(2))
      have "fst (upload_try sf req' e (snd (create_temp_dirs s))) =
            fst (upload_try sf req e (snd (create_temp_dirs s)))"
      proof (cases "declared_too_large req")
        case True
        then show ?thesis using lg by (simp add: upload_try_oversize)
      next
        case small: False
        show ?thesis
        proof (cases "videoFile req")
          case None
          then show ?thesis using assms(1) small lg by (simp add: upload_try_no_file)
        next
          case (Some fl)
          show ?thesis
          proof (cases "filename fl = []")
            case True
            then show ?thesis using Some assms(1) small lg by (simp add: upload_try_empty_name)
          next
            case nonempty: False
            have "\<not> allowed_file (filename fl)"
              using False Some nonempty small
              by (cases "content_length req")
                 (simp_all add: passes_validation_def declared_too_large_def)
            then show ?thesis using Some nonempty assms(1) small lg
              by (simp add: upload_try_bad_type)
          qed
        qed
      qed
      with False \<open>fst (create_temp_dirs s) = None\<close> pv show ?thesis
        by (simp add: upload_file_invalid)
    qed
  qed
qed

lemma upload_route_same_command:
  assumes "videoFile req' = videoFile req" "content_length req' = content_length req"
      and "requested_command sf req' e = requested_command sf req e"
      and "remote_addr req' = remote_addr req"
  shows "upload_route sf req' e s = upload_route sf req e s"
  unfolding upload_route_def rate_limit_def assms(4) upload_file_same_command[OF assms(1,2,3)]
  by (rule refl)

lemma upload_file_runs_requested_command:
  assumes "Run cmd \<in> set (new_calls s (snd (upload_file sf req e s)))"
  shows "cmd = requested_command sf req e"
proof (cases "fst (create_temp_dirs s) \<noteq> None \<or> \<not> passes_validation req")
  case True
  then have "snd (upload_file sf req e s) = snd (create_temp_dirs s)" by (rule upload_file_rejected)
  with assms create_temp_dirs_fields(5)[of s] show ?thesis by auto
next
  case False
  then have v: "upload_file sf req e s = after_validation sf req e (snd (create_temp_dirs s))"
    by (simp add: upload_file_valid)
  define s0 where "s0 = snd (create_temp_dirs s)"
  obtain xs where xs: "syscalls (snd (upload_file sf req e s)) =
      syscalls s0 @ Save (reserved_upload_path sf req e) # xs"
    "set xs \<subseteq> {Run (requested_command sf req e), Exists (reserved_upload_path sf req e),
       Remove (reserved_upload_path sf req e),
       Exists (reserved_converted_path e), Remove (reserved_converted_path e)}"
    using after_validation_calls[where sf=sf and req=req and e=e and ?s0.0=s0]
    unfolding v s0_def by blast
  from False have "syscalls s0 = syscalls s @ [Makedirs UPLOAD_FOLDER, Makedirs CONVERTED_FOLDER]"
    unfolding s0_def by (simp add: create_temp_dirs_fields)
  with xs(1) have "new_calls s (snd (upload_file sf req e s)) =
      [Makedirs UPLOAD_FOLDER, Makedirs CONVERTED_FOLDER] @ Save (reserved_upload_path sf req e) # xs"
    by simp
  with assms xs(2) show ?thesis by auto
qed

lemma file_save_result:
  "fst (file_save f p e s) =
     (if files s p = Some Dir then Some OSError
      else case save_outcome e of Save_ok \<Rightarrow> None | Save_raises part \<Rightarrow> Some OSError)"
  by (simp add: file_save_def Let_def split: save_outcome.split option.split)

lemma reserved_upload_path_not_folder:
  "reserved_upload_path sf req e \<notin> {UPLOAD_FOLDER, CONVERTED_FOLDER}"
proof -
  have "\<And>b. b \<noteq> [] \<Longrightarrow> os_path_join UPLOAD_FOLDER b \<notin> {UPLOAD_FOLDER, CONVERTED_FOLDER}"
  proof -
    fix b :: string assume "b \<noteq> []"
    then show "os_path_join UPLOAD_FOLDER b \<notin> {UPLOAD_FOLDER, CONVERTED_FOLDER}"
      by (cases b) (auto simp: os_path_join_def UPLOAD_FOLDER_def CONVERTED_FOLDER_def)
  qed
  then show ?thesis by (simp add: reserved_upload_path_def Let_def)
qed

text \<open>A request that is let through, passes validation and is saved has its command run.\<close>

lemma saved_upload_runs_command:
  assumes "status (fst (upload_route sf req e s)) \<noteq> 429"
      and "fst (create_temp_dirs s) = None"
      and "passes_validation req"
      and "save_outcome e = Save_ok"
      and "files s (reserved_upload_path sf req e) \<noteq> Some Dir"
  shows "take 4 (new_calls s (snd (upload_route sf req e s))) =
           [Makedirs UPLOAD_FOLDER, Makedirs CONVERTED_FOLDER,
            Save (reserved_upload_path sf req e), Run (requested_command sf req e)]"
    and "\<exists>fs. fst (upload_route sf req e s) =
           (case encoder e (requested_command sf req e) fs of
              Not_started \<Rightarrow> json_error ''An internal server error occurred.'' 500
            | Exited rc out \<Rightarrow>
                if rc = 0 then \<lparr>body = Json_filename (uuid4 e @ ''.mp4''), status = 200\<rparr>
                else json_error
                  ''Video conversion failed. The format might be unsupported or the file corrupted.''
                  500)"
proof -
  define s0 where "s0 = snd (create_temp_dirs s)"
  define up where "up = reserved_upload_path sf req e"
  define cp where "cp = reserved_converted_path e"
  define cmd where "cmd = requested_command sf req e"
  define fl where "fl = the (videoFile req)"
  define s1 where "s1 = snd (file_save fl up e s0)"
  define s2 where "s2 = snd (subprocess_run cmd e s1)"
  obtain ts where r: "upload_route sf req e s =
      (fst (upload_file sf req e s), with_timestamps ts (snd (upload_file sf req e s)))"
  proof (cases rule: upload_route_cases[where sf=sf and req=req and e=e and s=s])
    case (limited ts)
    with assms(1) show ?thesis by (simp add: too_many_requests_def)
  next
    case (let_through ts)
    then show ?thesis by (rule that)
  qed
  have v: "upload_file sf req e s = after_validation sf req e s0"
    unfolding s0_def using assms(2,3) by (rule upload_file_valid)
  have "files s0 up = files s up"
    unfolding s0_def up_def using reserved_upload_path_not_folder[of sf req e]
    by (simp add: create_temp_dirs_ok_files[OF assms(2)])
  then have saved: "fst (file_save fl up e s0) = None"
    using assms(4,5) by (simp add: file_save_result up_def)
  have l0: "syscalls s0 = syscalls s @ [Makedirs UPLOAD_FOLDER, Makedirs CONVERTED_FOLDER]"
    unfolding s0_def using assms(2) by (simp add: create_temp_dirs_fields)
  have l2: "syscalls s2 =
      syscalls s @ [Makedirs UPLOAD_FOLDER, Makedirs CONVERTED_FOLDER, Save up, Run cmd]"
    unfolding s2_def s1_def using l0 by (simp add: subprocess_run_fields file_save_fields)
  have av: "after_validation sf req e s0 =
      (case fst (subprocess_run cmd e s1) of
         Inr rc \<Rightarrow> (\<lparr>body = Json_filename (uuid4 e @ ''.mp4''), status = 200\<rparr>,
                    cleanup_file (Some up) e s2)
       | Inl CalledProcessError \<Rightarrow>
           (json_error
              ''Video conversion failed. The format might be unsupported or the file corrupted.'' 500,
            cleanup_file (Some cp) e (cleanup_file (Some up) e s2))
       | Inl err \<Rightarrow>
           (json_error ''An internal server error occurred.'' 500,
            cleanup_file (Some cp) e (cleanup_file (Some up) e s2)))"
    using saved unfolding after_validation_def Let_def up_def cp_def cmd_def fl_def s1_def s2_def
    by simp
  have calls: "\<exists>zs. syscalls (snd (after_validation sf req e s0)) = syscalls s2 @ zs"
  proof (cases "fst (subprocess_run cmd e s1)")
    case (Inl err)
    then show ?thesis unfolding av by (cases err) (simp_all add: cleanup_file_fields)
  next
    case (Inr rc)
    then show ?thesis unfolding av by (simp add: cleanup_file_fields)
  qed
  then obtain zs where
    "syscalls (snd (upload_file sf req e s)) =
       syscalls s @ [Makedirs UPLOAD_FOLDER, Makedirs CONVERTED_FOLDER, Save up, Run cmd] @ zs"
    unfolding v l2 by auto
  then have "new_calls s (snd (upload_route sf req e s)) =
       [Makedirs UPLOAD_FOLDER, Makedirs CONVERTED_FOLDER, Save up, Run cmd] @ zs"
    unfolding r by simp
  then show "take 4 (new_calls s (snd (upload_route sf req e s))) =
           [Makedirs UPLOAD_FOLDER, Makedirs CONVERTED_FOLDER,
            Save (reserved_upload_path sf req e), Run (requested_command sf req e)]"
    by (simp add: up_def cmd_def)
  have "fst (upload_route sf req e s) =
           (case encoder e cmd (files s1) of
              Not_started \<Rightarrow> json_error ''An internal server error occurred.'' 500
            | Exited rc out \<Rightarrow>
                if rc = 0 then \<lparr>body = Json_filename (uuid4 e @ ''.mp4''), status = 200\<rparr>
                else json_error
                  ''Video conversion failed. The format might be unsupported or the file corrupted.''
                  500)"
    unfolding r v av
    by (simp add: subprocess_run_result split: encoder_outcome.split)
  then show "\<exists>fs. fst (upload_route sf req e s) =
           (case encoder e (requested_command sf req e) fs of
              Not_started \<Rightarrow> json_error ''An internal server error occurred.'' 500
            | Exited rc out \<Rightarrow>
                if rc = 0 then \<lparr>body = Json_filename (uuid4 e @ ''.mp4''), status = 200\<rparr>
                else json_error
                  ''Video conversion failed. The format might be unsupported or the file corrupted.''
                  500)"
    unfolding cmd_def by blast
qed

text \<open>
  Claim C7. The command line is a function of the two option values and the two paths:
  \<open>low\<close>, \<open>medium\<close> and \<open>high\<close> give the CRF settings 18, 23 and 28, the resolutions
  \<open>480p\<close>, \<open>720p\<close> and \<open>1080p\<close> give the filter \<open>scale=-2:H\<close> and \<open>original\<close> gives none;
  every other value gives the flags of \<open>medium\<close> and of \<open>original\<close>. A request that the
  rate limiter lets through, that passes validation and whose file is saved runs the
  encoder on exactly this command line, right after the save, and its response is decided
  by what the encoder does with it; no other command is ever run. A request with an
  unrecognised option value is handled exactly like the request without that field: it is
  not rejected for it.
\<close>

theorem encoder_invocation_from_options:
  "crf_flags ''low'' = [''-crf'', ''18''] \<and> crf_flags ''medium'' = [''-crf'', ''23''] \<and>
   crf_flags ''high'' = [''-crf'', ''28''] \<and>
   scale_flags ''480p'' = [''-vf'', ''scale=-2:480''] \<and>
   scale_flags ''720p'' = [''-vf'', ''scale=-2:720''] \<and>
   scale_flags ''1080p'' = [''-vf'', ''scale=-2:1080''] \<and>
   scale_flags ''original'' = [] \<and>
   (c \<notin> {''low'', ''high''} \<longrightarrow> crf_flags c = crf_flags ''medium'') \<and>
   (r \<notin> {''1080p'', ''720p'', ''480p''} \<longrightarrow> scale_flags r = scale_flags ''original'') \<and>
   requested_command sf req e =
     [''ffmpeg'', ''-i'', reserved_upload_path sf req e] @
     crf_flags (str_lower (case form_compression req of None \<Rightarrow> ''medium'' | Some v \<Rightarrow> v)) @
     scale_flags (str_lower (case form_resolution req of None \<Rightarrow> ''original'' | Some v \<Rightarrow> v)) @
     [''-codec:v'', ''libx264'', ''-preset'', ''medium'', ''-codec:a'', ''aac'',
      ''-b:a'', ''128k'', ''-movflags'', ''+faststart'', ''-y'', ''-hide_banner'',
      ''-loglevel'', ''error'', reserved_converted_path e] \<and>
   (Run cmd \<in> set (new_calls s (snd (upload_route sf req e s))) \<longrightarrow>
      cmd = requested_command sf req e) \<and>
   (status (fst (upload_route sf req e s)) \<noteq> 429 \<and> fst (create_temp_dirs s) = None \<and>
    passes_validation req \<and> save_outcome e = Save_ok \<and>
    files s (reserved_upload_path sf req e) \<noteq> Some Dir \<longrightarrow>
      take 4 (new_calls s (snd (upload_route sf req e s))) =
        [Makedirs UPLOAD_FOLDER, Makedirs CONVERTED_FOLDER,
         Save (reserved_upload_path sf req e), Run (requested_command sf req e)] \<and>
      (\<exists>fs. fst (upload_route sf req e s) =
         (case encoder e (requested_command sf req e) fs of
            Not_started \<Rightarrow> json_error ''An internal server error occurred.'' 500
          | Exited rc out \<Rightarrow>
              if rc = 0 then \<lparr>body = Json_filename (uuid4 e @ ''.mp4''), status = 200\<rparr>
              else json_error
                ''Video conversion failed. The format might be unsupported or the file corrupted.''
                500))) \<and>
   (str_lower c \<notin> {''low'', ''high''} \<longrightarrow>
      upload_route sf (req\<lparr>form_compression := Some c\<rparr>) e s =
      upload_route sf (req\<lparr>form_compression := None\<rparr>) e s) \<and>
   (str_lower r \<notin> {''1080p'', ''720p'', ''480p''} \<longrightarrow>
      upload_route sf (req\<lparr>form_resolution := Some r\<rparr>) e s =
      upload_route sf (req\<lparr>form_resolution := None\<rparr>) e s)"
proof -
  have runs: "status (fst (upload_route sf req e s)) \<noteq> 429 \<and> fst (create_temp_dirs s) = None \<and>
    passes_validation req \<and> save_outcome e = Save_ok \<and>
    files s (reserved_upload_path sf req e) \<noteq> Some Dir \<longrightarrow>
      take 4 (new_calls s (snd (upload_route sf req e s))) =
        [Makedirs UPLOAD_FOLDER, Makedirs CONVERTED_FOLDER,
         Save (reserved_upload_path sf req e), Run (requested_command sf req e)] \<and>
      (\<exists>fs. fst (upload_route sf req e s) =
         (case encoder e (requested_command sf req e) fs of
            Not_started \<Rightarrow> json_error ''An internal server error occurred.'' 500
          | Exited rc out \<Rightarrow>
              if rc = 0 then \<lparr>body = Json_filename (uuid4 e @ ''.mp4''), status = 200\<rparr>
              else json_error
                ''Video conversion failed. The format might be unsupported or the file corrupted.''
                500))"
    using saved_upload_runs_command[of sf req e s] by blast
  have run: "Run cmd \<in> set (new_calls s (snd (upload_route sf req e s))) \<longrightarrow>
      cmd = requested_command sf req e"
  proof (cases rule: upload_route_cases[where sf=sf and req=req and e=e and s=s])
    case (limited ts)
    then show ?thesis by simp
  next
    case (let_through ts)
    then show ?thesis using upload_file_runs_requested_command[of cmd s sf req e] by simp
  qed
  have fc: "str_lower c \<notin> {''low'', ''high''} \<longrightarrow>
      upload_route sf (req\<lparr>form_compression := Some c\<rparr>) e s =
      upload_route sf (req\<lparr>form_compression := None\<rparr>) e s"
    using requested_command_fallback(1)[of c sf req e]
    by (auto intro!: upload_route_same_command)
  have fr: "str_lower r \<notin> {''1080p'', ''720p'', ''480p''} \<longrightarrow>
      upload_route sf (req\<lparr>form_resolution := Some r\<rparr>) e s =
      upload_route sf (req\<lparr>form_resolution := None\<rparr>) e s"
    using requested_command_fallback(2)[of r sf req e]
    by (auto intro!: upload_route_same_command)
  have flags: "crf_flags ''low'' = [''-crf'', ''18''] \<and> crf_flags ''medium'' = [''-crf'', ''23''] \<and>
   crf_flags ''high'' = [''-crf'', ''28''] \<and>
   scale_flags ''480p'' = [''-vf'', ''scale=-2:480''] \<and>
   scale_flags ''720p'' = [''-vf'', ''scale=-2:720''] \<and>
   scale_flags ''1080p'' = [''-vf'', ''scale=-2:1080''] \<and>
   scale_flags ''original'' = [] \<and>
   (c \<notin> {''low'', ''high''} \<longrightarrow> crf_flags c = crf_flags ''medium'') \<and>
   (r \<notin> {''1080p'', ''720p'', ''480p''} \<longrightarrow> scale_flags r = scale_flags ''original'')"
    by (simp add: crf_flags_def scale_flags_def)
  have cmd: "requested_command sf req e =
     [''ffmpeg'', ''-i'', reserved_upload_path sf req e] @
     crf_flags (str_lower (case form_compression req of None \<Rightarrow> ''medium'' | Some v \<Rightarrow> v)) @
     scale_flags (str_lower (case form_resolution req of None \<Rightarrow> ''original'' | Some v \<Rightarrow> v)) @
     [''-codec:v'', ''libx264'', ''-preset'', ''medium'', ''-codec:a'', ''aac'',
      ''-b:a'', ''128k'', ''-movflags'', ''+faststart'', ''-y'', ''-hide_banner'',
      ''-loglevel'', ''error'', reserved_converted_path e]"
    by (simp add: requested_command_def ffmpeg_command_def)
  show ?thesis using flags cmd run runs fc fr by blast
qed

theorem encoder_invocation_from_options_witness:
  "crf_flags ''Ultra'' = [''-crf'', ''23''] \<and> scale_flags ''4k'' = [] \<and>
   upload_route secure_filename (sample_request\<lparr>form_compression := Some ''Ultra''\<rparr>) sample_env
     (fresh_state Map.empty) =
   upload_route secure_filename (sample_request\<lparr>form_compression := None\<rparr>) sample_env
     (fresh_state Map.empty) \<and>
   upload_route secure_filename (sample_request\<lparr>form_resolution := Some ''4K''\<rparr>) sample_env
     (fresh_state Map.empty) =
   upload_route secure_filename (sample_request\<lparr>form_resolution := None\<rparr>) sample_env
     (fresh_state Map.empty) \<and>
   requested_command secure_filename sample_request sample_env =
     [''ffmpeg'', ''-i'', ''uploads/0f8c.mp4'', ''-crf'', ''18'', ''-vf'', ''scale=-2:1080'',
      ''-codec:v'', ''libx264'', ''-preset'', ''medium'', ''-codec:a'', ''aac'',
      ''-b:a'', ''128k'', ''-movflags'', ''+faststart'', ''-y'', ''-hide_banner'',
      ''-loglevel'', ''error'', ''converted/0f8c.mp4''] \<and>
   take 4 (new_calls (fresh_state Map.empty)
     (snd (upload_route secure_filename sample_request sample_env (fresh_state Map.empty)))) =
     [Makedirs UPLOAD_FOLDER, Makedirs CONVERTED_FOLDER,
      Save (reserved_upload_path secure_filename sample_request sample_env),
      Run (requested_command secure_filename sample_request sample_env)]"
proof -
  let ?cmd = "[''ffmpeg'', ''-i'', ''uploads/0f8c.mp4'', ''-crf'', ''18'', ''-vf'', ''scale=-2:1080'',
      ''-codec:v'', ''libx264'', ''-preset'', ''medium'', ''-codec:a'', ''aac'',
      ''-b:a'', ''128k'', ''-movflags'', ''+faststart'', ''-y'', ''-hide_banner'',
      ''-loglevel'', ''error'', ''converted/0f8c.mp4'']"
  have a: "''Ultra'' \<notin> {''low'', ''high''}" "''4k'' \<notin> {''1080p'', ''720p'', ''480p''}"
    "str_lower ''Ultra'' \<notin> {''low'', ''high''}" "str_lower ''4K'' \<notin> {''1080p'', ''720p'', ''480p''}"
    by (simp_all add: lower_char_def)
  have b: "Run ?cmd \<in> set (new_calls (fresh_state Map.empty)
       (snd (upload_route secure_filename sample_request sample_env (fresh_state Map.empty))))"
    by (simp add: model_defs secure_filename_movie)
  have c: "status (fst (upload_route secure_filename sample_request sample_env
             (fresh_state Map.empty))) \<noteq> 429"
    "fst (create_temp_dirs (fresh_state Map.empty)) = None"
    "passes_validation sample_request"
    "save_outcome sample_env = Save_ok"
    "files (fresh_state Map.empty) (reserved_upload_path secure_filename sample_request sample_env)
       \<noteq> Some Dir"
    by (simp_all add: model_defs secure_filename_movie passes_validation_def)
  from a b c
    encoder_invocation_from_options[of "''Ultra''" "''4k''" secure_filename sample_request sample_env
      ?cmd "fresh_state Map.empty"]
    encoder_invocation_from_options[of "''Ultra''" "''4K''" secure_filename sample_request sample_env
      ?cmd "fresh_state Map.empty"]
  show ?thesis by simp
qed

section \<open>The download and index handlers, case by case\<close>

lemma send_from_directory_fields:
  "files (snd (send_from_directory d n e s)) = files s"
  "syscalls (snd (send_from_directory d n e s)) = syscalls s @ [Send (os_path_join d n)]"
  "request_timestamps (snd (send_from_directory d n e s)) = request_timestamps s"
  by (simp_all add: send_from_directory_def Let_def split: option.split node.split)

lemma send_from_directory_result:
  "fst (send_from_directory d n e s) =
     (case send_error e of
        Some err \<Rightarrow> Inl err
      | None \<Rightarrow> (case files s (os_path_join d n) of Some (File b) \<Rightarrow> Inr b | _ \<Rightarrow> Inl NotFound))"
  by (simp add: send_from_directory_def Let_def split: option.split node.split)

lemma download_file_invalid:
  "sf fname \<noteq> fname \<Longrightarrow> download_file sf fname e s = (text_response ''Invalid filename'' 400, s)"
  by (simp add: download_file_def)

lemma download_file_missing:
  assumes "sf fname = fname" "\<not> holds_file s (os_path_join CONVERTED_FOLDER fname)"
  shows "status (fst (download_file sf fname e s)) = 404"
    and "files (snd (download_file sf fname e s)) = files s"
    and "set (new_calls s (snd (download_file sf fname e s))) \<subseteq>
           {Exists (os_path_join CONVERTED_FOLDER fname), Isfile (os_path_join CONVERTED_FOLDER fname)}"
  using assms
  by (auto simp add: download_file_def Let_def os_path_exists_def os_path_isfile_def
      holds_file_def text_response_def new_calls_def split: option.splits node.splits)

lemma download_file_present:
  fixes sf fname e s
  defines "p \<equiv> os_path_join CONVERTED_FOLDER fname"
  defines "s2 \<equiv> record_call (Isfile p) (record_call (Exists p) s)"
  assumes "sf fname = fname" "files s p = Some (File b)"
  shows "download_file sf fname e s =
           ((case send_error e of
               None \<Rightarrow> \<lparr>body = Attachment fname b, status = 200\<rparr>
             | Some err \<Rightarrow> text_response ''An error occurred while downloading the file.'' 500),
            cleanup_file (Some p) e (record_call (Send p) s2))"
  using assms(3,4)
  by (simp add: download_file_def Let_def os_path_exists_def os_path_isfile_def
      send_from_directory_def p_def[symmetric] s2_def split: option.split)

lemma converted_path_nonempty [simp]: "os_path_join CONVERTED_FOLDER fname \<noteq> []"
  by (simp add: os_path_join_nonempty CONVERTED_FOLDER_def)

lemma download_file_calls:
  assumes "sf fname = fname"
  shows "set (new_calls s (snd (download_file sf fname e s))) \<subseteq>
           {Exists (os_path_join CONVERTED_FOLDER fname), Isfile (os_path_join CONVERTED_FOLDER fname),
            Send (os_path_join CONVERTED_FOLDER fname), Remove (os_path_join CONVERTED_FOLDER fname)}"
proof (cases "holds_file s (os_path_join CONVERTED_FOLDER fname)")
  case False
  with assms download_file_missing(3)[where sf=sf and fname=fname and s=s and e=e]
  show ?thesis by blast
next
  case True
  then obtain b where "files s (os_path_join CONVERTED_FOLDER fname) = Some (File b)"
    by (auto simp: holds_file_def split: option.splits node.splits)
  with assms download_file_present[where sf=sf and fname=fname and s=s and e=e and b=b]
  show ?thesis
    by (simp add: cleanup_file_fields new_calls_def)
qed

lemma download_file_status:
  "status (fst (download_file sf fname e s)) \<in> {200, 400, 404, 500}"
proof (cases "sf fname = fname")
  case False
  then show ?thesis by (simp add: download_file_invalid text_response_def)
next
  case True
  show ?thesis
  proof (cases "holds_file s (os_path_join CONVERTED_FOLDER fname)")
    case False
    with True download_file_missing(1)[where sf=sf and fname=fname and s=s and e=e]
    show ?thesis by simp
  next
    case h: True
    then obtain b where "files s (os_path_join CONVERTED_FOLDER fname) = Some (File b)"
      by (auto simp: holds_file_def split: option.splits node.splits)
    with True download_file_present[where sf=sf and fname=fname and s=s and e=e and b=b]
    show ?thesis
      by (simp add: text_response_def split: option.split)
  qed
qed

lemma index_status: "status (fst (index e s)) \<in> {200, 404, 500}"
proof (cases "fst (send_from_directory ''.'' ''index.html'' e s)")
  case (Inl err)
  then show ?thesis
    by (cases "send_from_directory ''.'' ''index.html'' e s"; cases err)
       (simp_all add: index_def text_response_def)
next
  case (Inr b)
  then show ?thesis
    by (cases "send_from_directory ''.'' ''index.html'' e s") (simp add: index_def)
qed

text \<open>
  Claim C10. Handling \<open>GET /\<close> or \<open>GET /download/<filename>\<close> does not consult the
  timestamp store (with any other store the response and the rest of the state are the
  same) and does not modify it; the response is never 429; and such a request is not
  counted among the admitted upload requests.
\<close>

theorem other_routes_leave_rate_limiter_alone:
  "handle sf (Download fname e) (s\<lparr>request_timestamps := ts\<rparr>) =
     (fst (handle sf (Download fname e) s),
      (snd (handle sf (Download fname e) s))\<lparr>request_timestamps := ts\<rparr>) \<and>
   handle sf (Index e) (s\<lparr>request_timestamps := ts\<rparr>) =
     (fst (handle sf (Index e) s), (snd (handle sf (Index e) s))\<lparr>request_timestamps := ts\<rparr>) \<and>
   request_timestamps (snd (handle sf (Download fname e) s)) = request_timestamps s \<and>
   request_timestamps (snd (handle sf (Index e) s)) = request_timestamps s \<and>
   status (fst (handle sf (Download fname e) s)) \<in> {200, 400, 404, 500} \<and>
   status (fst (handle sf (Index e) s)) \<in> {200, 404, 500} \<and>
   admitted sf (Download fname e # evs) s = admitted sf evs (snd (handle sf (Download fname e) s)) \<and>
   admitted sf (Index e # evs) s = admitted sf evs (snd (handle sf (Index e) s))"
proof -
  have a: "request_timestamps (snd (download_file sf fname e s)) = request_timestamps s"
    using download_file_store[of sf fname e "request_timestamps s" s] 
    by (metis snd_conv with_timestamps_simps(3,4))
  have b: "request_timestamps (snd (index e s)) = request_timestamps s"
    using index_store[of e "request_timestamps s" s]
    by (metis snd_conv with_timestamps_simps(3,4))
  show ?thesis
    using a b download_file_store[of sf fname e ts s] index_store[of e ts s]
      download_file_status[of sf fname e s] index_status[of e s]
    by (simp add: with_timestamps_def split: prod.split)
qed

section \<open>Sanitising the requested download name\<close>

lemma secure_filename_safe: "c \<in> set (secure_filename x) \<Longrightarrow> safe_char c"
proof -
  assume "c \<in> set (secure_filename x)"
  then have "c \<in> set (dropWhile (\<lambda>c. c \<in> set ''._'')
      (rev (dropWhile (\<lambda>c. c \<in> set ''._'')
        (filter safe_char (join_underscore (split_words
           (map (\<lambda>c. if c = CHR ''/'' then CHR '' '' else c)
              (filter (\<lambda>c. (of_char c :: nat) < 128) x)) []))))))"
    by (simp add: secure_filename_def strip_chars_def)
  then show ?thesis
    by (auto dest!: set_dropWhileD)
qed

lemma secure_filename_contract:
  "CHR ''/'' \<notin> set (secure_filename x) \<and> secure_filename x \<noteq> ''..''"
proof
  show "CHR ''/'' \<notin> set (secure_filename x)"
    using secure_filename_safe[of "CHR ''/''" x] by (auto simp: safe_char_def)
  show "secure_filename x \<noteq> ''..''"
  proof
    assume a: "secure_filename x = ''..''"
    define y where "y = rev (dropWhile (\<lambda>c. c \<in> set ''._'')
        (filter safe_char (join_underscore (split_words
           (map (\<lambda>c. if c = CHR ''/'' then CHR '' '' else c)
              (filter (\<lambda>c. (of_char c :: nat) < 128) x)) []))))"
    from a have "rev (dropWhile (\<lambda>c. c \<in> set ''._'') y) = ''..''"
      by (simp add: secure_filename_def strip_chars_def y_def)
    then have "dropWhile (\<lambda>c. c \<in> set ''._'') y = rev ''..''" by (metis rev_rev_ident)
    then have d: "dropWhile (\<lambda>c. c \<in> set ''._'') y = ''..''" by simp
    then have "\<not> (hd (dropWhile (\<lambda>c. c \<in> set ''._'') y) \<in> set ''._'')"
      using hd_dropWhile[of "\<lambda>c. c \<in> set ''._''" y] by simp
    with d show False by simp
  qed
qed

lemma sanitised_path:
  assumes "CHR ''/'' \<notin> set fname"
  shows "os_path_join CONVERTED_FOLDER fname = CONVERTED_FOLDER @ ''/'' @ fname"
  using assms by (cases fname) (auto simp: os_path_join_def CONVERTED_FOLDER_def)

text \<open>
  Claim C6. \<open>download_file\<close> applies the sanitiser that \<open>upload_file\<close> applies (the
  parameter \<open>sf\<close>), and when the sanitised name differs from the requested one it answers
  400 without any system call and without changing the state. Given that the sanitiser
  never returns a name with a path separator or the name \<open>..\<close>, every name with a
  separator and the name \<open>..\<close> are rejected so, and every system call of the handler is
  on the path of the requested name directly inside the converted directory.
\<close>

theorem download_rejects_unsanitised_names:
  assumes "\<forall>x. CHR ''/'' \<notin> set (sf x) \<and> sf x \<noteq> ''..''"
  shows "(sf fname \<noteq> fname \<longrightarrow>
            download_file sf fname e s = (text_response ''Invalid filename'' 400, s)) \<and>
         (CHR ''/'' \<in> set fname \<or> fname = ''..'' \<longrightarrow>
            download_file sf fname e s = (text_response ''Invalid filename'' 400, s)) \<and>
         (\<forall>c \<in> set (new_calls s (snd (download_file sf fname e s))).
            op_path c = CONVERTED_FOLDER @ ''/'' @ fname \<and> CHR ''/'' \<notin> set fname \<and>
            fname \<noteq> ''..'' \<and> sf fname = fname)"
proof (cases "sf fname = fname")
  case False
  then show ?thesis by (simp add: download_file_invalid)
next
  case True
  with assms have ok: "CHR ''/'' \<notin> set fname" "fname \<noteq> ''..''" by metis+
  have "set (new_calls s (snd (download_file sf fname e s))) \<subseteq>
           {Exists (CONVERTED_FOLDER @ ''/'' @ fname), Isfile (CONVERTED_FOLDER @ ''/'' @ fname),
            Send (CONVERTED_FOLDER @ ''/'' @ fname), Remove (CONVERTED_FOLDER @ ''/'' @ fname)}"
    using download_file_calls[where sf=sf and fname=fname and e=e and s=s] True
    unfolding sanitised_path[OF ok(1)] by simp
  then have "\<forall>c \<in> set (new_calls s (snd (download_file sf fname e s))).
      op_path c = CONVERTED_FOLDER @ ''/'' @ fname" by auto
  then show ?thesis using True ok by simp
qed

theorem download_rejects_unsanitised_names_witness:
  "(\<forall>x. CHR ''/'' \<notin> set (secure_filename x) \<and> secure_filename x \<noteq> ''..'') \<and>
   download_file secure_filename ''..%2Fsecret'' sample_env (fresh_state Map.empty) =
     (text_response ''Invalid filename'' 400, fresh_state Map.empty) \<and>
   download_file secure_filename ''../secret'' sample_env (fresh_state Map.empty) =
     (text_response ''Invalid filename'' 400, fresh_state Map.empty)"
proof -
  have c: "\<forall>x. CHR ''/'' \<notin> set (secure_filename x) \<and> secure_filename x \<noteq> ''..''"
    using secure_filename_contract by blast
  have a: "secure_filename ''..%2Fsecret'' \<noteq> ''..%2Fsecret''"
    by (simp add: secure_filename_traversal)
  have b: "CHR ''/'' \<in> set ''../secret''" by simp
  from download_rejects_unsanitised_names[OF c, of "''..%2Fsecret''" sample_env "fresh_state Map.empty"]
       download_rejects_unsanitised_names[OF c, of "''../secret''" sample_env "fresh_state Map.empty"]
       a b c
  show ?thesis by blast
qed


section \<open>Downloading once\<close>

text \<open>
  Claim C2, as amended. For a name that the sanitiser leaves unchanged and that names an
  existing converted file: unless \<open>os.remove\<close> fails, the file is gone after the first
  request and a second request for the same name is answered 404; the first request is
  answered 200 with the bytes of the file unless sending fails, in which case it is
  answered 500 (and the file is removed all the same).
\<close>

theorem download_once:
  assumes "sf fname = fname"
      and "files s (os_path_join CONVERTED_FOLDER fname) = Some (File b)"
      and "\<not> remove_fails e (os_path_join CONVERTED_FOLDER fname)"
  shows "(send_error e = None \<longrightarrow>
            fst (download_file sf fname e s) = \<lparr>body = Attachment fname b, status = 200\<rparr>) \<and>
         (send_error e \<noteq> None \<longrightarrow> status (fst (download_file sf fname e s)) = 500) \<and>
         files (snd (download_file sf fname e s)) =
           (files s)(os_path_join CONVERTED_FOLDER fname := None) \<and>
         status (fst (download_file sf fname e' (snd (download_file sf fname e s)))) = 404"
proof -
  define p where "p = os_path_join CONVERTED_FOLDER fname"
  define s' where "s' = snd (download_file sf fname e s)"
  have d: "download_file sf fname e s =
           ((case send_error e of
               None \<Rightarrow> \<lparr>body = Attachment fname b, status = 200\<rparr>
             | Some err \<Rightarrow> text_response ''An error occurred while downloading the file.'' 500),
            cleanup_file (Some p) e
              (record_call (Send p) (record_call (Isfile p) (record_call (Exists p) s))))"
    using assms(1,2) download_file_present[where sf=sf and fname=fname and s=s and e=e and b=b]
    unfolding p_def by simp
  have f: "files s' = (files s)(p := None)"
    unfolding s'_def d using assms(2,3)
    by (simp add: cleanup_file_fields holds_file_def p_def)
  then have "\<not> holds_file s' p" by (simp add: holds_file_def)
  then have "status (fst (download_file sf fname e' s')) = 404"
    using download_file_missing(1)[where sf=sf and fname=fname and s=s' and e=e'] assms(1)
    unfolding p_def by simp
  then show ?thesis using d f unfolding s'_def p_def
    by (auto simp add: text_response_def split: option.splits)
qed

theorem download_once_witness:
  "secure_filename ''0f8c.mp4'' = ''0f8c.mp4'' \<and>
   files (fresh_state stocked_fs) (os_path_join CONVERTED_FOLDER ''0f8c.mp4'') = Some (File ''mp4 bytes'') \<and>
   \<not> remove_fails sample_env (os_path_join CONVERTED_FOLDER ''0f8c.mp4'') \<and>
   fst (download_file secure_filename ''0f8c.mp4'' sample_env (fresh_state stocked_fs)) =
     \<lparr>body = Attachment ''0f8c.mp4'' ''mp4 bytes'', status = 200\<rparr> \<and>
   status (fst (download_file secure_filename ''0f8c.mp4'' sample_env
     (snd (download_file secure_filename ''0f8c.mp4'' sample_env (fresh_state stocked_fs))))) = 404 \<and>
   map status (fst (serve secure_filename
      [Upload sample_request sample_env, Download ''0f8c.mp4'' sample_env,
       Download ''0f8c.mp4'' sample_env]
      (fresh_state Map.empty))) = [200, 200, 404]"
proof -
  have run: "map status (fst (serve secure_filename
      [Upload sample_request sample_env, Download ''0f8c.mp4'' sample_env,
       Download ''0f8c.mp4'' sample_env]
      (fresh_state Map.empty))) = [200, 200, 404]"
    by (simp add: model_defs secure_filename_token secure_filename_movie)
  have a: "secure_filename ''0f8c.mp4'' = ''0f8c.mp4''" by (rule secure_filename_token)
  have b: "files (fresh_state stocked_fs) (os_path_join CONVERTED_FOLDER ''0f8c.mp4'') =
             Some (File ''mp4 bytes'')"
    by (simp add: model_defs)
  have c: "\<not> remove_fails sample_env (os_path_join CONVERTED_FOLDER ''0f8c.mp4'')"
    by (simp add: sample_env_def)
  have d: "send_error sample_env = None" by (simp add: sample_env_def)
  from download_once[where sf=secure_filename and fname="''0f8c.mp4''" and s="fresh_state stocked_fs"
      and b="''mp4 bytes''" and e=sample_env and e'=sample_env] a b c d run
  show ?thesis by simp
qed

text \<open>
  Claim C2 as stated fails where the operating system refuses the removal: the file
  stays, and the second request for the same name is answered 200 again.
\<close>

theorem download_twice_when_removal_fails:
  "map status (fst (serve secure_filename
      [Download ''0f8c.mp4'' stubborn_env, Download ''0f8c.mp4'' stubborn_env]
      (fresh_state stocked_fs))) = [200, 200]"
  by (simp add: model_defs secure_filename_token)

section \<open>The rate limiter, one call at a time\<close>

lemma upload_route_limited:
  assumes "int (length (kept_timestamps req e s)) \<ge> RATE_LIMIT_REQUESTS"
  shows "upload_route sf req e s =
           (too_many_requests, set_timestamps (remote_addr req) (kept_timestamps req e s) s)"
  using assms by (simp add: upload_route_def rate_limit_def kept_timestamps_def Let_def)

lemma upload_route_let_through:
  assumes "\<not> int (length (kept_timestamps req e s)) \<ge> RATE_LIMIT_REQUESTS"
  shows "upload_route sf req e s =
           (fst (upload_file sf req e s),
            with_timestamps
              ((request_timestamps s)(remote_addr req \<mapsto> kept_timestamps req e s @ [now e]))
              (snd (upload_file sf req e s)))"
proof -
  have "upload_route sf req e s =
        upload_file sf req e
          (with_timestamps
             ((request_timestamps s)(remote_addr req \<mapsto> kept_timestamps req e s @ [now e])) s)"
    using assms
    by (simp add: upload_route_def rate_limit_def kept_timestamps_def set_timestamps_def
        with_timestamps_def timestamps_of_def Let_def)
  then show ?thesis by (simp add: upload_file_store)
qed

lemma upload_route_429:
  "status (fst (upload_route sf req e s)) = 429 \<longleftrightarrow>
     int (length (kept_timestamps req e s)) \<ge> RATE_LIMIT_REQUESTS"
proof (cases "int (length (kept_timestamps req e s)) \<ge> RATE_LIMIT_REQUESTS")
  case True
  then show ?thesis by (simp add: upload_route_limited too_many_requests_def)
next
  case False
  then show ?thesis using upload_file_status[of sf req e s]
    by (auto simp add: upload_route_let_through)
qed

lemma upload_route_timestamps:
  "timestamps_of (snd (upload_route sf req e s)) ip =
     (if ip \<noteq> remote_addr req then timestamps_of s ip
      else if status (fst (upload_route sf req e s)) = 429 then kept_timestamps req e s
      else kept_timestamps req e s @ [now e])"
proof (cases "int (length (kept_timestamps req e s)) \<ge> RATE_LIMIT_REQUESTS")
  case True
  then show ?thesis
    by (simp add: upload_route_limited too_many_requests_def timestamps_of_def set_timestamps_def)
next
  case False
  then have "status (fst (upload_route sf req e s)) \<noteq> 429" by (simp add: upload_route_429)
  then show ?thesis using False
    by (simp add: upload_route_let_through timestamps_of_def)
qed

lemma within_limit_fresh: "request_timestamps s = Map.empty \<Longrightarrow> within_limit s"
  by (simp add: within_limit_def timestamps_of_def RATE_LIMIT_REQUESTS_def)

lemma kept_le: "length (kept_timestamps req e s) \<le> length (timestamps_of s (remote_addr req))"
  by (simp add: kept_timestamps_def)

lemma within_limit_upload:
  assumes "within_limit s"
  shows "within_limit (snd (upload_route sf req e s))"
  unfolding within_limit_def
proof
  fix ip
  have a: "int (length (timestamps_of s ip)) \<le> RATE_LIMIT_REQUESTS"
    "int (length (timestamps_of s (remote_addr req))) \<le> RATE_LIMIT_REQUESTS"
    using assms by (simp_all add: within_limit_def)
  show "int (length (timestamps_of (snd (upload_route sf req e s)) ip)) \<le> RATE_LIMIT_REQUESTS"
    using a kept_le[of req e s] upload_route_429[of sf req e s]
    by (auto simp add: upload_route_timestamps)
qed

lemma handle_timestamps_other:
  "request_timestamps (snd (handle sf (Download fname e) s)) = request_timestamps s"
  "request_timestamps (snd (handle sf (Index e) s)) = request_timestamps s"
proof -
  show "request_timestamps (snd (handle sf (Download fname e) s)) = request_timestamps s"
    using download_file_store[of sf fname e "request_timestamps s" s]
    by (metis handle.simps(2) snd_conv with_timestamps_simps(3,4))
  show "request_timestamps (snd (handle sf (Index e) s)) = request_timestamps s"
    using index_store[of e "request_timestamps s" s]
    by (metis handle.simps(3) snd_conv with_timestamps_simps(3,4))
qed

lemma within_limit_handle:
  assumes "within_limit s"
  shows "within_limit (snd (handle sf ev s))"
proof (cases ev)
  case (Upload req e)
  then show ?thesis using within_limit_upload[OF assms] by simp
next
  case (Download fname e)
  then show ?thesis using assms handle_timestamps_other(1)[of sf fname e s]
    by (simp add: within_limit_def timestamps_of_def)
next
  case (Index e)
  then show ?thesis using assms handle_timestamps_other(2)[of sf e s]
    by (simp add: within_limit_def timestamps_of_def)
qed

lemma within_limit_serve:
  "within_limit s \<Longrightarrow> within_limit (snd (serve sf evs s))"
proof (induction evs arbitrary: s)
  case Nil
  then show ?case by simp
next
  case (Cons ev evs)
  obtain r s1 where h: "handle sf ev s = (r, s1)" by (cases "handle sf ev s")
  obtain rs s2 where t: "serve sf evs s1 = (rs, s2)" by (cases "serve sf evs s1")
  from within_limit_handle[OF Cons.prems, of sf ev] h have "within_limit s1" by simp
  from Cons.IH[OF this] t have "within_limit s2" by simp
  then show ?case using h t by simp
qed

lemma filter_all_of_length:
  assumes "length (filter P xs) \<ge> length xs"
  shows "filter P xs = xs"
proof -
  have "length (filter P xs) = length xs" using assms length_filter_le[of P xs] by simp
  then show ?thesis by (metis filter_True length_filter_less less_irrefl_nat)
qed

lemma rejected_state_unchanged:
  assumes "within_limit s" and "status (fst (upload_route sf req e s)) = 429"
  shows "snd (upload_route sf req e s) = s"
proof -
  let ?ip = "remote_addr req"
  from assms(2) have k: "int (length (kept_timestamps req e s)) \<ge> RATE_LIMIT_REQUESTS"
    by (simp add: upload_route_429)
  moreover from assms(1) have "int (length (timestamps_of s ?ip)) \<le> RATE_LIMIT_REQUESTS"
    by (simp add: within_limit_def)
  ultimately have "length (kept_timestamps req e s) \<ge> length (timestamps_of s ?ip)" by simp
  then have same: "kept_timestamps req e s = timestamps_of s ?ip"
    unfolding kept_timestamps_def by (rule filter_all_of_length)
  from k have "kept_timestamps req e s \<noteq> []" by (auto simp: RATE_LIMIT_REQUESTS_def)
  with same have "request_timestamps s ?ip = Some (kept_timestamps req e s)"
    by (cases "request_timestamps s ?ip") (simp_all add: timestamps_of_def)
  then have "(request_timestamps s)(?ip \<mapsto> kept_timestamps req e s) = request_timestamps s"
    by (simp add: map_upd_triv)
  then show ?thesis using k by (simp add: upload_route_limited set_timestamps_def)
qed

lemma rejected_state_pruned:
  assumes "status (fst (upload_route sf req e s)) = 429"
  shows "snd (upload_route sf req e s) =
           set_timestamps (remote_addr req) (kept_timestamps req e s) s"
    and "request_timestamps s (remote_addr req) = Some (timestamps_of s (remote_addr req))"
proof -
  from assms have k: "int (length (kept_timestamps req e s)) \<ge> RATE_LIMIT_REQUESTS"
    by (simp add: upload_route_429)
  then show "snd (upload_route sf req e s) =
           set_timestamps (remote_addr req) (kept_timestamps req e s) s"
    by (simp add: upload_route_limited)
  from k have "kept_timestamps req e s \<noteq> []" by (auto simp: RATE_LIMIT_REQUESTS_def)
  then have "timestamps_of s (remote_addr req) \<noteq> []" by (auto simp: kept_timestamps_def)
  then show "request_timestamps s (remote_addr req) = Some (timestamps_of s (remote_addr req))"
    by (cases "request_timestamps s (remote_addr req)") (simp_all add: timestamps_of_def)
qed

lemma set_timestamps_same:
  "set_timestamps ip ts s = s \<longleftrightarrow> request_timestamps s ip = Some ts"
proof -
  have "set_timestamps ip ts s = s \<longleftrightarrow> (request_timestamps s)(ip \<mapsto> ts) = request_timestamps s"
    by (cases s) (simp add: set_timestamps_def)
  then show ?thesis by (simp add: fun_upd_idem_iff)
qed

lemma rejected_state_unchanged_iff:
  assumes "status (fst (upload_route sf req e s)) = 429"
  shows "snd (upload_route sf req e s) = s \<longleftrightarrow>
           (\<forall>ts \<in> set (timestamps_of s (remote_addr req)). now e - ts < RATE_LIMIT_WINDOW_SECONDS)"
proof -
  have "snd (upload_route sf req e s) = s \<longleftrightarrow>
          kept_timestamps req e s = timestamps_of s (remote_addr req)"
    using rejected_state_pruned[OF assms] by (auto simp add: set_timestamps_same)
  then show ?thesis by (simp add: kept_timestamps_def filter_id_conv)
qed

text \<open>
  Claim C9, as amended, for an arbitrary store (the dictionary is shared by the request
  threads, so nothing is assumed about what it holds). A call that the rate limiter rejects touches
  neither the filesystem nor the record of any other client, and it records nothing new;
  but line 66 writes the client's pruned list back before the limit is tested, so the
  client's record after the call is the list of its timestamps that are less than a
  window old. The state is the same as before exactly when none of the client's
  timestamps has expired. That is the case whenever the client has at most the limit of
  timestamps on record, and so in every state reached from an empty store by serving
  requests one after the other.
\<close>

theorem rejected_request_only_prunes:
  assumes "status (fst (upload_route sf req e s)) = 429"
  shows "snd (upload_route sf req e s) =
           set_timestamps (remote_addr req)
             (filter (\<lambda>ts. now e - ts < RATE_LIMIT_WINDOW_SECONDS)
                (timestamps_of s (remote_addr req))) s \<and>
         timestamps_of (snd (upload_route sf req e s)) (remote_addr req) =
           filter (\<lambda>ts. now e - ts < RATE_LIMIT_WINDOW_SECONDS)
             (timestamps_of s (remote_addr req)) \<and>
         (\<forall>ip. ip \<noteq> remote_addr req \<longrightarrow>
            request_timestamps (snd (upload_route sf req e s)) ip = request_timestamps s ip) \<and>
         files (snd (upload_route sf req e s)) = files s \<and>
         syscalls (snd (upload_route sf req e s)) = syscalls s \<and>
         (snd (upload_route sf req e s) = s \<longleftrightarrow>
            (\<forall>ts \<in> set (timestamps_of s (remote_addr req)).
               now e - ts < RATE_LIMIT_WINDOW_SECONDS)) \<and>
         (int (length (timestamps_of s (remote_addr req))) \<le> RATE_LIMIT_REQUESTS \<longrightarrow>
            snd (upload_route sf req e s) = s) \<and>
         (request_timestamps s0 = Map.empty \<and> s = snd (serve sf evs s0) \<longrightarrow>
            snd (upload_route sf req e s) = s)"
proof -
  let ?ip = "remote_addr req"
  let ?s' = "snd (upload_route sf req e s)"
  have p: "?s' = set_timestamps ?ip
             (filter (\<lambda>ts. now e - ts < RATE_LIMIT_WINDOW_SECONDS) (timestamps_of s ?ip)) s"
    using rejected_state_pruned(1)[OF assms] by (simp add: kept_timestamps_def)
  have t: "timestamps_of ?s' ?ip =
             filter (\<lambda>ts. now e - ts < RATE_LIMIT_WINDOW_SECONDS) (timestamps_of s ?ip)"
    unfolding p by (simp add: timestamps_of_def set_timestamps_def)
  have o: "\<forall>ip. ip \<noteq> ?ip \<longrightarrow> request_timestamps ?s' ip = request_timestamps s ip"
    unfolding p by (simp add: set_timestamps_def)
  have f: "files ?s' = files s" "syscalls ?s' = syscalls s"
    unfolding p by (simp_all add: set_timestamps_def)
  have i: "?s' = s \<longleftrightarrow>
             (\<forall>ts \<in> set (timestamps_of s ?ip). now e - ts < RATE_LIMIT_WINDOW_SECONDS)"
    using assms by (rule rejected_state_unchanged_iff)
  have l: "int (length (timestamps_of s ?ip)) \<le> RATE_LIMIT_REQUESTS \<longrightarrow> ?s' = s"
  proof
    assume le: "int (length (timestamps_of s ?ip)) \<le> RATE_LIMIT_REQUESTS"
    from assms have "int (length (kept_timestamps req e s)) \<ge> RATE_LIMIT_REQUESTS"
      by (simp add: upload_route_429)
    with le have "length (kept_timestamps req e s) \<ge> length (timestamps_of s ?ip)" by simp
    then have "kept_timestamps req e s = timestamps_of s ?ip"
      unfolding kept_timestamps_def by (rule filter_all_of_length)
    then show "?s' = s"
      using rejected_state_pruned[OF assms] by (simp add: set_timestamps_same)
  qed
  have r: "request_timestamps s0 = Map.empty \<and> s = snd (serve sf evs s0) \<longrightarrow> ?s' = s"
  proof
    assume a: "request_timestamps s0 = Map.empty \<and> s = snd (serve sf evs s0)"
    then have "within_limit s"
      using within_limit_serve[OF within_limit_fresh, of s0 sf evs] by simp
    then show "?s' = s" using assms by (rule rejected_state_unchanged)
  qed
  from p t o f i l r show ?thesis by blast
qed

theorem rejected_request_only_prunes_witness:
  "status (fst (upload_route secure_filename bare_request (at_time 30)
     (snd (serve secure_filename five_at_0 (fresh_state Map.empty))))) = 429 \<and>
   request_timestamps (fresh_state Map.empty) = Map.empty \<and>
   timestamps_of (snd (serve secure_filename five_at_0 (fresh_state Map.empty)))
     (remote_addr bare_request) = [0, 0, 0, 0, 0] \<and>
   snd (upload_route secure_filename bare_request (at_time 30)
     (snd (serve secure_filename five_at_0 (fresh_state Map.empty)))) =
   snd (serve secure_filename five_at_0 (fresh_state Map.empty))"
proof -
  have a: "request_timestamps (fresh_state Map.empty) = Map.empty"
    by (simp add: fresh_state_def)
  have b: "status (fst (upload_route secure_filename bare_request (at_time 30)
     (snd (serve secure_filename five_at_0 (fresh_state Map.empty))))) = 429"
    by (simp add: model_defs)
  have c: "timestamps_of (snd (serve secure_filename five_at_0 (fresh_state Map.empty)))
     (remote_addr bare_request) = [0, 0, 0, 0, 0]"
    by (simp add: model_defs)
  have d: "snd (upload_route secure_filename bare_request (at_time 30)
     (snd (serve secure_filename five_at_0 (fresh_state Map.empty)))) =
   snd (serve secure_filename five_at_0 (fresh_state Map.empty))"
    using rejected_request_only_prunes[OF b, of "fresh_state Map.empty" five_at_0] a by blast
  from b a c d show ?thesis by (intro conjI)
qed

text \<open>
  Claim C9 as stated fails: with six timestamps on record, the oldest of them expired, the
  call at time 105 is rejected and the client's record is one entry shorter after it.
\<close>

theorem rejected_request_changes_crowded_store:
  "status (fst (upload_route secure_filename bare_request (at_time 105) crowded_state)) = 429 \<and>
   timestamps_of crowded_state (remote_addr bare_request) = [0, 100, 101, 102, 103, 104] \<and>
   timestamps_of (snd (upload_route secure_filename bare_request (at_time 105) crowded_state))
     (remote_addr bare_request) = [100, 101, 102, 103, 104] \<and>
   snd (upload_route secure_filename bare_request (at_time 105) crowded_state) \<noteq> crowded_state"
proof -
  have a: "status (fst (upload_route secure_filename bare_request (at_time 105) crowded_state)) = 429"
    by (simp add: model_defs)
  have b: "timestamps_of crowded_state (remote_addr bare_request) = [0, 100, 101, 102, 103, 104]"
    by (simp add: model_defs)
  have c: "timestamps_of (snd (upload_route secure_filename bare_request (at_time 105) crowded_state))
     (remote_addr bare_request) = [100, 101, 102, 103, 104]"
    by (simp add: model_defs)
  from b c have "snd (upload_route secure_filename bare_request (at_time 105) crowded_state)
      \<noteq> crowded_state" by auto
  with a b c show ?thesis by simp
qed

section \<open>The rate limiter over a run\<close>

lemma client_times_simps [simp]:
  "client_times ip [] = []"
  "client_times ip (h @ h') = client_times ip h @ client_times ip h'"
  "client_times ip [(i, t)] = (if i = ip then [t] else [])"
  by (simp_all add: client_times_def)

lemma serve_append:
  "serve sf (evs @ evs') s =
     (fst (serve sf evs s) @ fst (serve sf evs' (snd (serve sf evs s))),
      snd (serve sf evs' (snd (serve sf evs s))))"
  by (induction evs arbitrary: s) (simp_all split: prod.split)

lemma admitted_append:
  "admitted sf (evs @ evs') s = admitted sf evs s @ admitted sf evs' (snd (serve sf evs s))"
  by (induction evs arbitrary: s) (simp_all split: prod.split)

lemma upload_times_append: "upload_times (evs @ evs') = upload_times evs @ upload_times evs'"
  by (induction evs rule: upload_times.induct) simp_all

lemma serve_single: "snd (serve sf [ev] s) = snd (handle sf ev s)"
  by (simp split: prod.split)

lemma admitted_single_upload:
  "admitted sf [Upload req e] s =
     (if status (fst (upload_route sf req e s)) = 429 then [] else [(remote_addr req, now e)])"
  by (simp split: prod.split)

lemma admitted_single_other:
  "admitted sf [Download fname e] s = []" "admitted sf [Index e] s = []"
  by (simp_all split: prod.split)

lemma serve_snoc: "snd (serve sf (evs @ [ev]) s) = snd (handle sf ev (snd (serve sf evs s)))"
  unfolding serve_append by (simp split: prod.split)

lemma admitted_snoc:
  "admitted sf (evs @ [Upload req e]) s =
     admitted sf evs s @
     (if status (fst (upload_route sf req e (snd (serve sf evs s)))) = 429 then []
      else [(remote_addr req, now e)])"
  "admitted sf (evs @ [Download fname e]) s = admitted sf evs s"
  "admitted sf (evs @ [Index e]) s = admitted sf evs s"
  unfolding admitted_append by (simp_all split: prod.split)

lemma length_filter_mono:
  "(\<And>x. x \<in> set xs \<Longrightarrow> P x \<Longrightarrow> Q x) \<Longrightarrow> length (filter P xs) \<le> length (filter Q xs)"
  by (induction xs) auto

text \<open>With a clock that does not run backwards, pruning the record at a later time gives
  the admitted requests of the trailing window.\<close>

lemma kept_is_recent:
  assumes "store_tracks sf evs s0" and "\<forall>t \<in> set (upload_times evs). t \<le> now e"
  shows "kept_timestamps req e (snd (serve sf evs s0)) =
           filter (\<lambda>t. now e - t < RATE_LIMIT_WINDOW_SECONDS)
             (client_times (remote_addr req) (admitted sf evs s0))"
proof -
  let ?ip = "remote_addr req"
  from assms(1) consider
    (none) "client_times ?ip (admitted sf evs s0) = []" "timestamps_of (snd (serve sf evs s0)) ?ip = []"
    | (some) T where "T \<in> set (upload_times evs)"
        "timestamps_of (snd (serve sf evs s0)) ?ip =
           filter (\<lambda>t. T - t < RATE_LIMIT_WINDOW_SECONDS) (client_times ?ip (admitted sf evs s0))"
    unfolding store_tracks_def by blast
  then show ?thesis
  proof cases
    case none
    then show ?thesis by (simp add: kept_timestamps_def)
  next
    case (some T)
    with assms(2) have "T \<le> now e" by blast
    then have "\<And>t. (T - t < RATE_LIMIT_WINDOW_SECONDS \<and> now e - t < RATE_LIMIT_WINDOW_SECONDS) =
                   (now e - t < RATE_LIMIT_WINDOW_SECONDS)" by auto
    then show ?thesis unfolding kept_timestamps_def some(2) by simp
  qed
qed

lemma sorted_snoc_upper:
  assumes "sorted (xs @ [x :: real])"
  shows "\<forall>t \<in> set xs. t \<le> x"
  using assms by (simp add: sorted_append)

lemma invariants_step:
  assumes tr: "store_tracks sf evs s0" and wb: "window_bound sf evs s0"
      and so: "sorted (upload_times (evs @ [ev]))"
  shows "store_tracks sf (evs @ [ev]) s0 \<and> window_bound sf (evs @ [ev]) s0"
proof (cases ev)
  case (Download fname e)
  have "request_timestamps (snd (serve sf (evs @ [ev]) s0)) = request_timestamps (snd (serve sf evs s0))"
    unfolding Download serve_snoc by (simp add: handle_timestamps_other del: handle.simps)
  then have "\<And>ip. timestamps_of (snd (serve sf (evs @ [ev]) s0)) ip = timestamps_of (snd (serve sf evs s0)) ip"
    by (simp add: timestamps_of_def)
  then show ?thesis using tr wb
    unfolding store_tracks_def window_bound_def Download
    by (simp add: admitted_snoc upload_times_append)
next
  case (Index e)
  have "request_timestamps (snd (serve sf (evs @ [ev]) s0)) = request_timestamps (snd (serve sf evs s0))"
    unfolding Index serve_snoc by (simp add: handle_timestamps_other del: handle.simps)
  then have "\<And>ip. timestamps_of (snd (serve sf (evs @ [ev]) s0)) ip = timestamps_of (snd (serve sf evs s0)) ip"
    by (simp add: timestamps_of_def)
  then show ?thesis using tr wb
    unfolding store_tracks_def window_bound_def Index
    by (simp add: admitted_snoc upload_times_append)
next
  case (Upload req e)
  define s where "s = snd (serve sf evs s0)"
  define H where "H = admitted sf evs s0"
  define ip0 where "ip0 = remote_addr req"
  define W where "W = RATE_LIMIT_WINDOW_SECONDS"
  define recent where "recent = filter (\<lambda>t. now e - t < W) (client_times ip0 H)"
  have Wpos: "0 < W" by (simp add: W_def RATE_LIMIT_WINDOW_SECONDS_def)
  from so have up: "\<forall>t \<in> set (upload_times evs). t \<le> now e"
    unfolding Upload upload_times_append by (simp add: sorted_snoc_upper)
  have kept: "kept_timestamps req e s = recent"
    unfolding s_def recent_def H_def ip0_def W_def using kept_is_recent[OF tr up] .
  have s': "snd (serve sf (evs @ [ev]) s0) = snd (upload_route sf req e s)"
    unfolding Upload serve_snoc s_def by simp
  have ut: "upload_times (evs @ [ev]) = upload_times evs @ [now e]"
    unfolding Upload by (simp add: upload_times_append)
  show ?thesis
  proof (cases "status (fst (upload_route sf req e s)) = 429")
    case True
    have H': "admitted sf (evs @ [ev]) s0 = H"
      unfolding Upload admitted_snoc H_def using True by (simp add: s_def)
    have ts: "\<And>ip. timestamps_of (snd (serve sf (evs @ [ev]) s0)) ip =
         (if ip \<noteq> ip0 then timestamps_of s ip else recent)"
      unfolding s' using True by (simp add: upload_route_timestamps kept ip0_def)
    have "store_tracks sf (evs @ [ev]) s0"
      unfolding store_tracks_def
    proof
      fix ip
      show "(client_times ip (admitted sf (evs @ [ev]) s0) = [] \<and>
             timestamps_of (snd (serve sf (evs @ [ev]) s0)) ip = []) \<or>
            (\<exists>T\<in>set (upload_times (evs @ [ev])).
               timestamps_of (snd (serve sf (evs @ [ev]) s0)) ip =
               filter (\<lambda>t. T - t < RATE_LIMIT_WINDOW_SECONDS)
                 (client_times ip (admitted sf (evs @ [ev]) s0)))"
      proof (cases "ip = ip0")
        case True
        then show ?thesis unfolding H' ts ut by (auto simp: recent_def W_def)
      next
        case False
        then show ?thesis using tr unfolding H' ts ut store_tracks_def s_def H_def by auto
      qed
    qed
    moreover have "window_bound sf (evs @ [ev]) s0"
      using wb unfolding window_bound_def H' H_def .
    ultimately show ?thesis ..
  next
    case False
    then have room: "int (length recent) < RATE_LIMIT_REQUESTS"
      using upload_route_429[of sf req e s] kept by simp
    have H': "admitted sf (evs @ [ev]) s0 = H @ [(ip0, now e)]"
      unfolding Upload admitted_snoc H_def using False by (simp add: s_def ip0_def)
    have ts: "\<And>ip. timestamps_of (snd (serve sf (evs @ [ev]) s0)) ip =
         (if ip \<noteq> ip0 then timestamps_of s ip else recent @ [now e])"
      unfolding s' using False by (simp add: upload_route_timestamps kept ip0_def)
    have "store_tracks sf (evs @ [ev]) s0"
      unfolding store_tracks_def
    proof
      fix ip
      show "(client_times ip (admitted sf (evs @ [ev]) s0) = [] \<and>
             timestamps_of (snd (serve sf (evs @ [ev]) s0)) ip = []) \<or>
            (\<exists>T\<in>set (upload_times (evs @ [ev])).
               timestamps_of (snd (serve sf (evs @ [ev]) s0)) ip =
               filter (\<lambda>t. T - t < RATE_LIMIT_WINDOW_SECONDS)
                 (client_times ip (admitted sf (evs @ [ev]) s0)))"
      proof (cases "ip = ip0")
        case True
        then show ?thesis unfolding H' ts ut using Wpos by (auto simp: recent_def W_def)
      next
        case False
        then show ?thesis using tr unfolding H' ts ut store_tracks_def s_def H_def by auto
      qed
    qed
    moreover have "window_bound sf (evs @ [ev]) s0"
      unfolding window_bound_def
    proof (intro allI)
      fix ip a
      let ?I = "\<lambda>t. a \<le> t \<and> t < a + RATE_LIMIT_WINDOW_SECONDS"
      have old: "int (length (filter ?I (client_times ip H))) \<le> RATE_LIMIT_REQUESTS"
        using wb unfolding window_bound_def H_def by blast
      show "int (length (filter ?I (client_times ip (admitted sf (evs @ [ev]) s0)))) \<le> RATE_LIMIT_REQUESTS"
      proof (cases "ip = ip0 \<and> ?I (now e)")
        case False
        then show ?thesis using old unfolding H' by auto
      next
        case True
        have "length (filter ?I (client_times ip0 H)) \<le> length recent"
          unfolding recent_def
        proof (rule length_filter_mono)
          fix t assume "?I t"
          with True show "now e - t < W" unfolding W_def by linarith
        qed
        with room True show ?thesis unfolding H' by simp
      qed
    qed
    ultimately show ?thesis ..
  qed
qed

lemma invariants_hold:
  assumes "request_timestamps s0 = Map.empty" "sorted (upload_times evs)"
  shows "store_tracks sf evs s0 \<and> window_bound sf evs s0"
  using assms(2)
proof (induction evs rule: rev_induct)
  case Nil
  show ?case using assms(1)
    by (simp add: store_tracks_def window_bound_def timestamps_of_def RATE_LIMIT_REQUESTS_def)
next
  case (snoc ev evs)
  from snoc.prems have "sorted (upload_times evs)"
    by (simp add: upload_times_append sorted_append)
  with snoc.IH have "store_tracks sf evs s0" "window_bound sf evs s0" by simp_all
  then show ?case using snoc.prems by (rule invariants_step)
qed

text \<open>
  Claim C4, as amended. One call of the decorated handler keeps exactly the recorded
  timestamps \<open>ts\<close> of the client with \<open>now - ts < window\<close> (one that is exactly \<open>window\<close>
  old is discarded too); it answers 429 exactly when at least \<open>limit\<close> of them remain,
  and then records nothing; otherwise it appends \<open>now\<close>; the records of other clients
  stay as they are. In a run that starts with an empty store and whose clock does not run
  backwards, a request is rejected exactly when at least \<open>limit\<close> of the client's earlier
  admitted requests are less than \<open>window\<close> seconds old; a rejected request changes
  nothing and is not counted; and no half-open interval of \<open>window\<close> seconds holds more
  than \<open>limit\<close> admitted requests of one client.
\<close>

theorem rate_limit_sliding_window:
  assumes "request_timestamps s0 = Map.empty"
      and "sorted (upload_times (evs @ [Upload req e]))"
  shows
   "(status (fst (upload_route sf req e s)) = 429 \<longleftrightarrow>
       RATE_LIMIT_REQUESTS \<le>
         int (length (filter (\<lambda>ts. now e - ts < RATE_LIMIT_WINDOW_SECONDS)
                        (timestamps_of s (remote_addr req))))) \<and>
    timestamps_of (snd (upload_route sf req e s)) ip =
      (if ip \<noteq> remote_addr req then timestamps_of s ip
       else if status (fst (upload_route sf req e s)) = 429
         then filter (\<lambda>ts. now e - ts < RATE_LIMIT_WINDOW_SECONDS) (timestamps_of s ip)
       else filter (\<lambda>ts. now e - ts < RATE_LIMIT_WINDOW_SECONDS) (timestamps_of s ip) @ [now e]) \<and>
    (status (fst (upload_route sf req e (snd (serve sf evs s0)))) = 429 \<longleftrightarrow>
       RATE_LIMIT_REQUESTS \<le>
         int (length (filter (\<lambda>t. now e - t < RATE_LIMIT_WINDOW_SECONDS)
                        (client_times (remote_addr req) (admitted sf evs s0))))) \<and>
    (status (fst (upload_route sf req e (snd (serve sf evs s0)))) = 429 \<longrightarrow>
       snd (upload_route sf req e (snd (serve sf evs s0))) = snd (serve sf evs s0) \<and>
       admitted sf (evs @ [Upload req e]) s0 = admitted sf evs s0) \<and>
    int (length (filter (\<lambda>t. a \<le> t \<and> t < a + RATE_LIMIT_WINDOW_SECONDS)
                   (client_times ip (admitted sf (evs @ [Upload req e]) s0))))
      \<le> RATE_LIMIT_REQUESTS"
proof -
  from assms(2) have so: "sorted (upload_times evs)" "\<forall>t \<in> set (upload_times evs). t \<le> now e"
    by (simp_all add: upload_times_append sorted_append)
  have inv: "store_tracks sf evs s0" "window_bound sf evs s0"
    using invariants_hold[OF assms(1) so(1), of sf] by simp_all
  have inv': "window_bound sf (evs @ [Upload req e]) s0"
    using invariants_hold[OF assms, of sf] by simp
  have a: "status (fst (upload_route sf req e s)) = 429 \<longleftrightarrow>
       RATE_LIMIT_REQUESTS \<le>
         int (length (filter (\<lambda>ts. now e - ts < RATE_LIMIT_WINDOW_SECONDS)
                        (timestamps_of s (remote_addr req))))"
    using upload_route_429[of sf req e s] by (simp add: kept_timestamps_def)
  have b: "timestamps_of (snd (upload_route sf req e s)) ip =
      (if ip \<noteq> remote_addr req then timestamps_of s ip
       else if status (fst (upload_route sf req e s)) = 429
         then filter (\<lambda>ts. now e - ts < RATE_LIMIT_WINDOW_SECONDS) (timestamps_of s ip)
       else filter (\<lambda>ts. now e - ts < RATE_LIMIT_WINDOW_SECONDS) (timestamps_of s ip) @ [now e])"
    using upload_route_timestamps[of sf req e s ip] by (simp add: kept_timestamps_def)
  have c: "status (fst (upload_route sf req e (snd (serve sf evs s0)))) = 429 \<longleftrightarrow>
       RATE_LIMIT_REQUESTS \<le>
         int (length (filter (\<lambda>t. now e - t < RATE_LIMIT_WINDOW_SECONDS)
                        (client_times (remote_addr req) (admitted sf evs s0))))"
    using upload_route_429[of sf req e "snd (serve sf evs s0)"] kept_is_recent[OF inv(1) so(2), of req]
    by simp
  have d: "status (fst (upload_route sf req e (snd (serve sf evs s0)))) = 429 \<longrightarrow>
       snd (upload_route sf req e (snd (serve sf evs s0))) = snd (serve sf evs s0) \<and>
       admitted sf (evs @ [Upload req e]) s0 = admitted sf evs s0"
    using rejected_state_unchanged[OF within_limit_serve[OF within_limit_fresh[OF assms(1)], of sf evs],
        of sf req e]
    by (simp add: admitted_snoc)
  have f: "int (length (filter (\<lambda>t. a \<le> t \<and> t < a + RATE_LIMIT_WINDOW_SECONDS)
                   (client_times ip (admitted sf (evs @ [Upload req e]) s0))))
      \<le> RATE_LIMIT_REQUESTS"
    using inv' unfolding window_bound_def by blast
  show ?thesis using a b c d f by blast
qed

theorem rate_limit_sliding_window_witness:
  "request_timestamps (fresh_state Map.empty) = Map.empty \<and>
   sorted (upload_times (five_at_0 @ [Upload bare_request (at_time 30)])) \<and>
   status (fst (upload_route secure_filename bare_request (at_time 30)
     (snd (serve secure_filename five_at_0 (fresh_state Map.empty))))) = 429 \<and>
   admitted secure_filename (five_at_0 @ [Upload bare_request (at_time 30)]) (fresh_state Map.empty) =
   admitted secure_filename five_at_0 (fresh_state Map.empty)"
proof -
  have a: "request_timestamps (fresh_state Map.empty) = Map.empty"
    by (simp add: fresh_state_def)
  have b: "sorted (upload_times (five_at_0 @ [Upload bare_request (at_time 30)]))"
    by (simp add: five_at_0_def at_time_def)
  have c: "status (fst (upload_route secure_filename bare_request (at_time 30)
     (snd (serve secure_filename five_at_0 (fresh_state Map.empty))))) = 429"
    by (simp add: model_defs)
  from rate_limit_sliding_window[OF a b, of secure_filename] a b c show ?thesis by blast
qed

text \<open>
  Claim C4 as stated fails in two ways. Six requests of one client at times 0, 0, 0, 0, 0
  and 60 lie within a 60-second interval and none is rejected: at time 60 the five
  timestamps 0 are not older than \<open>now - window\<close>, yet they are discarded. And after five
  admitted requests at time 0, of the six requests at times 59, 59, 59, 59, 59 and 61 the
  sixth is admitted: the five before it were rejected and left no trace.
\<close>

theorem sixth_request_in_window_admitted:
  "map status (fst (serve secure_filename (five_at_0 @ [Upload bare_request (at_time 60)])
     (fresh_state Map.empty))) = [400, 400, 400, 400, 400, 400] \<and>
   map status (fst (serve secure_filename
     (five_at_0 @ five_at_59 @ [Upload bare_request (at_time 61)])
     (fresh_state Map.empty))) = [400, 400, 400, 400, 400, 429, 429, 429, 429, 429, 400]"
  by (simp add: model_defs)

end
